theory Spec2Isabelle
  imports Complex_Main "HOL-Library.Sublist"
begin

section \<open>Text: code points, character classes, stripping\<close>

text \<open>
  A Python \<open>str\<close> is modelled as a \<open>string\<close> whose characters are the code points
  U+0000 to U+00FF. The three character classes below are the ones the evaluators rely on,
  restricted to that range:
  \<^item> \<open>is_word\<close> is the class \<open>\w\<close> of \<open>re\<close> on \<open>str\<close> patterns (alphanumeric or underscore);
    \<open>\W\<close> is its complement;
  \<^item> \<open>is_space\<close> is the class removed by \<open>str.strip()\<close>;
  \<^item> \<open>ascii_lower\<close> folds A to Z onto a to z. Under \<open>re.IGNORECASE\<close> a pattern letter of
    \<open>label\<close> matches exactly its two ASCII cases, so comparing \<open>ascii_lower c\<close> with the
    lower-case pattern letter is the caseless comparison of the pattern.
\<close>

definition is_word :: "char \<Rightarrow> bool" where
  "is_word c =
     (let n = (of_char c :: nat)
      in (48 \<le> n \<and> n \<le> 57) \<or> (65 \<le> n \<and> n \<le> 90) \<or> n = 95 \<or> (97 \<le> n \<and> n \<le> 122)
         \<or> n = 170 \<or> n = 178 \<or> n = 179 \<or> n = 181 \<or> n = 185 \<or> n = 186
         \<or> (188 \<le> n \<and> n \<le> 190) \<or> (192 \<le> n \<and> n \<le> 214)
         \<or> (216 \<le> n \<and> n \<le> 246) \<or> (248 \<le> n \<and> n \<le> 255))"

definition is_space :: "char \<Rightarrow> bool" where
  "is_space c =
     (let n = (of_char c :: nat)
      in (9 \<le> n \<and> n \<le> 13) \<or> (28 \<le> n \<and> n \<le> 32) \<or> n = 133 \<or> n = 160)"

definition ascii_lower :: "char \<Rightarrow> char" where
  "ascii_lower c =
     (let n = (of_char c :: nat) in if 65 \<le> n \<and> n \<le> 90 then char_of (n + 32) else c)"

definition strip :: "string \<Rightarrow> string" where
  "strip s = rev (dropWhile is_space (rev (dropWhile is_space s)))"

section \<open>The label delimiter \<open>(\W*label\W*)\<close>\<close>

text \<open>
  The matcher follows the backtracking search of \<open>re\<close> for this one pattern. Each piece of
  the pattern takes the matcher of what follows it and returns the number of characters
  matched from the start of the text, or \<open>None\<close>. \<open>\W*\<close> is greedy: it first tries to
  take one more non-word character and gives it back when the rest of the pattern fails.
\<close>

fun nonword_star :: "(string \<Rightarrow> nat option) \<Rightarrow> string \<Rightarrow> nat option" where
  "nonword_star k [] = k []"
| "nonword_star k (c # cs) =
     (if \<not> is_word c
      then (case nonword_star k cs of Some n \<Rightarrow> Some (Suc n) | None \<Rightarrow> k (c # cs))
      else k (c # cs))"

fun literal_ic :: "string \<Rightarrow> (string \<Rightarrow> nat option) \<Rightarrow> string \<Rightarrow> nat option" where
  "literal_ic [] k s = k s"
| "literal_ic (p # ps) k [] = None"
| "literal_ic (p # ps) k (c # cs) =
     (if ascii_lower c = p then map_option Suc (literal_ic ps k cs) else None)"

definition accept :: "string \<Rightarrow> nat option" where
  "accept s = Some 0"

text \<open>\<open>re.match(label_delimiter, s, flags=re.IGNORECASE)\<close>: the length of the match at the
  start of \<open>s\<close>, if there is one.\<close>

definition re_match :: "string \<Rightarrow> nat option" where
  "re_match s = nonword_star (literal_ic ''label'' (nonword_star accept)) s"

text \<open>The leftmost match: start position and length.\<close>

fun re_search :: "string \<Rightarrow> (nat \<times> nat) option" where
  "re_search [] = map_option (Pair 0) (re_match [])"
| "re_search (c # cs) =
     (case re_match (c # cs) of
        Some n \<Rightarrow> Some (0, n)
      | None \<Rightarrow> map_option (\<lambda>(i, n). (Suc i, n)) (re_search cs))"

lemma nonword_star_bounds:
  assumes "\<And>t m. k t = Some m \<Longrightarrow> lo \<le> m \<and> m \<le> length t"
  shows "nonword_star k s = Some n \<Longrightarrow> lo \<le> n \<and> n \<le> length s"
proof (induction s arbitrary: n)
  case Nil
  then show ?case using assms[of "[]" n] by simp
next
  case (Cons c cs)
  show ?case
  proof (cases "\<not> is_word c \<and> nonword_star k cs \<noteq> None")
    case True
    then obtain m where m: "nonword_star k cs = Some m" by auto
    with True Cons.prems have "n = Suc m" by simp
    moreover from Cons.IH[OF m] have "lo \<le> m \<and> m \<le> length cs" .
    ultimately show ?thesis by simp
  next
    case False
    with Cons.prems have "k (c # cs) = Some n" by (auto split: option.splits)
    then show ?thesis using assms by blast
  qed
qed

lemma literal_ic_bounds:
  assumes "\<And>t m. k t = Some m \<Longrightarrow> m \<le> length t"
  shows "literal_ic ps k s = Some n \<Longrightarrow> length ps \<le> n \<and> n \<le> length s"
proof (induction ps arbitrary: s n)
  case Nil
  then show ?case using assms by simp
next
  case (Cons p ps)
  show ?case
  proof (cases s)
    case Nil
    with Cons.prems show ?thesis by simp
  next
    case (Cons c cs)
    with Cons.prems obtain m where m: "literal_ic ps k cs = Some m" "n = Suc m"
      by (auto split: if_splits)
    from Cons.IH[OF m(1)] m(2) Cons show ?thesis by simp
  qed
qed

lemma re_match_bounds: "re_match s = Some n \<Longrightarrow> 5 \<le> n \<and> n \<le> length s"
proof -
  have a: "\<And>t m. nonword_star accept t = Some m \<Longrightarrow> 0 \<le> m \<and> m \<le> length t"
    by (rule nonword_star_bounds[where k = accept]) (simp add: accept_def)
  have b: "\<And>t m. literal_ic ''label'' (nonword_star accept) t = Some m \<Longrightarrow> 5 \<le> m \<and> m \<le> length t"
    using literal_ic_bounds[where k = "nonword_star accept" and ps = "''label''"] a by fastforce
  show "re_match s = Some n \<Longrightarrow> 5 \<le> n \<and> n \<le> length s"
    unfolding re_match_def by (rule nonword_star_bounds[OF b])
qed

lemma re_search_bounds: "re_search s = Some (i, n) \<Longrightarrow> 5 \<le> n \<and> i + n \<le> length s"
proof (induction s arbitrary: i)
  case Nil
  then show ?case using re_match_bounds[of "[]"] by auto
next
  case (Cons c cs)
  show ?case
  proof (cases "re_match (c # cs)")
    case None
    with Cons.prems obtain j where "re_search cs = Some (j, n)" "i = Suc j" by auto
    with Cons.IH show ?thesis by fastforce
  next
    case (Some m)
    with Cons.prems have "i = 0" "m = n" by auto
    with Some re_match_bounds show ?thesis by fastforce
  qed
qed

text \<open>
  \<open>re.split(label_delimiter, s, flags=re.IGNORECASE)\<close>. The pattern is one capture group, so
  every delimiter is kept: the result is the text before the leftmost match, the match, and
  the split of what follows it.
\<close>

function re_split :: "string \<Rightarrow> string list" where
  "re_split s =
     (case re_search s of
        None \<Rightarrow> [s]
      | Some (i, n) \<Rightarrow> take i s # take n (drop i s) # re_split (drop (i + n) s))"
  by pat_completeness auto
termination
proof (relation "measure length")
  show "wf (measure length)" by simp
next
  fix s :: string and x2 i n
  assume "re_search s = Some x2" "(i, n) = x2"
  then have "re_search s = Some (i, n)" by simp
  from re_search_bounds[OF this] have "0 < i + n" "i + n \<le> length s" by simp_all
  then have "length s - (i + n) < length s" by arith
  then show "(drop (i + n) s, s) \<in> measure length" by simp
qed

section \<open>\<open>_parse_label_from_explanation\<close>\<close>

text \<open>The \<open>while last_index > 0\<close> loop, \<open>Suc i\<close> being \<open>last_index\<close>: \<open>None\<close> when it runs
  to \<open>last_index = 0\<close> without returning. It starts at \<open>len(parts) - 1\<close>, so
  \<open>parts[last_index]\<close> and \<open>parts[last_index - 1]\<close> are always within the list.\<close>

fun scan_back :: "string list \<Rightarrow> nat \<Rightarrow> string option" where
  "scan_back parts 0 = None"
| "scan_back parts (Suc i) =
     (if re_match (parts ! i) \<noteq> None then Some (strip (parts ! Suc i))
      else scan_back parts i)"

definition parse_label_from_explanation :: "string \<Rightarrow> string" where
  "parse_label_from_explanation raw_string =
     (let parts = re_split raw_string
      in if length parts > 1
         then (case scan_back parts (length parts - 1) of
                 Some label \<Rightarrow> label
               | None \<Rightarrow> raw_string)
         else raw_string)"

section \<open>Exceptions\<close>

text \<open>
  Every \<open>raise\<close> and failed \<open>assert\<close> of the module, and every exception \<open>str.format\<close>
  raises, is a value. \<open>ClientError\<close> stands for whatever the model client or a
  caller-supplied extraction function raises; the evaluators pass it on unchanged.
  \<open>Unmodelled\<close> marks the parts of \<open>str.format\<close> left out of this development (see
  there); no property below rests on it.
\<close>

datatype exn =
    AssertionError
  | KeyError string
  | IndexError int
  | ValueError string
  | RuntimeError string
  | ClientError string
  | Unmodelled

section \<open>\<open>str.format\<close> with keyword arguments\<close>

text \<open>
  \<open>template.format(**kwargs)\<close> as the interpreter does it: \<open>markup\<close> reads the format
  string from left to right into literal characters and replacement fields, \<open>render\<close> looks
  each field up and writes the output. The first error in reading order wins: a field that
  cannot be looked up raises before a syntax error further right is reached, which is why
  \<open>markup\<close> returns the pieces read so far together with the syntax error, if any.

  \<^item> \<open>{{\<close> and \<open>}}\<close> are the literal braces; a single \<open>}\<close>, a \<open>{\<close> at the end or inside a
    field name, and a field that is not closed are \<open>ValueError\<close>s.
  \<^item> Inside a field name, \<open>[\<close> skips to the next \<open>]\<close>.
  \<^item> The name up to the first \<open>.\<close> or \<open>[\<close> selects the argument: an empty or decimal name
    is positional and, with no positional arguments, an \<open>IndexError\<close> (a \<open>ValueError\<close> beyond
    the largest index of a 64-bit build); any other name is a keyword, a \<open>KeyError\<close> when
    it is not among \<open>kwargs\<close>.
  \<^item> All arguments in this module are strings, which are written as they are.
  \<^item> Conversions (\<open>!r\<close>), format specifications (\<open>:>10\<close>) and attribute or index access on
    an argument (\<open>{text.upper}\<close>, \<open>{text[0]}\<close>) are not modelled: such a field is the
    piece \<open>Extended\<close> or yields \<open>Unmodelled\<close>. No format string of this module has one.
\<close>

datatype piece = Literal char | Replacement string | Extended

datatype mode = Text | Name string | Index string

fun cons_piece :: "piece \<Rightarrow> piece list \<times> exn option \<Rightarrow> piece list \<times> exn option" where
  "cons_piece p (ps, e) = (p # ps, e)"

fun markup :: "mode \<Rightarrow> string \<Rightarrow> piece list \<times> exn option" where
  "markup Text [] = ([], None)"
| "markup Text (c # cs) =
     (if c = CHR ''{'' then
        (case cs of
           [] \<Rightarrow> ([], Some (ValueError ''Single '{' encountered in format string''))
         | d # ds \<Rightarrow>
             if d = CHR ''{'' then cons_piece (Literal c) (markup Text ds)
             else markup (Name []) cs)
      else if c = CHR ''}'' then
        (case cs of
           [] \<Rightarrow> ([], Some (ValueError ''Single '}' encountered in format string''))
         | d # ds \<Rightarrow>
             if d = CHR ''}'' then cons_piece (Literal c) (markup Text ds)
             else ([], Some (ValueError ''Single '}' encountered in format string'')))
      else cons_piece (Literal c) (markup Text cs))"
| "markup (Name acc) [] = ([], Some (ValueError ''expected '}' before end of string''))"
| "markup (Name acc) (c # cs) =
     (if c = CHR ''{'' then ([], Some (ValueError ''unexpected '{' in field name''))
      else if c = CHR ''['' then markup (Index (acc @ [c])) cs
      else if c = CHR ''}'' then cons_piece (Replacement acc) (markup Text cs)
      else if c = CHR '':'' \<or> c = CHR ''!'' then ([Extended], None)
      else markup (Name (acc @ [c])) cs)"
| "markup (Index acc) [] = ([], Some (ValueError ''expected '}' before end of string''))"
| "markup (Index acc) (c # cs) =
     (if c = CHR '']'' then markup (Name (acc @ [c])) cs else markup (Index (acc @ [c])) cs)"

definition is_decimal :: "char \<Rightarrow> bool" where
  "is_decimal c = (let n = (of_char c :: nat) in 48 \<le> n \<and> n \<le> 57)"

fun get_integer :: "int \<Rightarrow> string \<Rightarrow> int" where
  "get_integer accumulator [] = accumulator"
| "get_integer accumulator (c # cs) = get_integer (accumulator * 10 + (of_char c - 48)) cs"

definition get_field :: "(string \<rightharpoonup> string) \<Rightarrow> string \<Rightarrow> exn + string" where
  "get_field kwargs field_name =
     (let first = takeWhile (\<lambda>c. c \<noteq> CHR ''.'' \<and> c \<noteq> CHR ''['') field_name;
          rest = dropWhile (\<lambda>c. c \<noteq> CHR ''.'' \<and> c \<noteq> CHR ''['') field_name
      in if first = [] then Inl (IndexError 0)
         else if list_all is_decimal first then
           (if get_integer 0 first > 2 ^ 63 - 1
            then Inl (ValueError ''Too many decimal digits in format string'')
            else Inl (IndexError (get_integer 0 first)))
         else (case kwargs first of
                 None \<Rightarrow> Inl (KeyError first)
               | Some v \<Rightarrow> if rest = [] then Inr v else Inl Unmodelled))"

fun render :: "(string \<rightharpoonup> string) \<Rightarrow> piece list \<Rightarrow> exn + string" where
  "render kwargs [] = Inr []"
| "render kwargs (Literal c # ps) =
     (case render kwargs ps of Inl e \<Rightarrow> Inl e | Inr s \<Rightarrow> Inr (c # s))"
| "render kwargs (Replacement n # ps) =
     (case get_field kwargs n of
        Inl e \<Rightarrow> Inl e
      | Inr v \<Rightarrow> (case render kwargs ps of Inl e \<Rightarrow> Inl e | Inr s \<Rightarrow> Inr (v @ s)))"
| "render kwargs (Extended # ps) = Inl Unmodelled"

definition py_format :: "string \<Rightarrow> (string \<rightharpoonup> string) \<Rightarrow> exn + string" where
  "py_format template kwargs =
     (case markup Text template of
        (ps, err) \<Rightarrow>
          (case render kwargs ps of
             Inl e \<Rightarrow> Inl e
           | Inr s \<Rightarrow> (case err of Some e \<Rightarrow> Inl e | None \<Rightarrow> Inr s)))"

text \<open>The fields a format string still has to be given values for, in order, or the error
  its syntax raises.\<close>

fun is_literal :: "piece \<Rightarrow> bool" where
  "is_literal (Literal c) = True"
| "is_literal p = False"

definition placeholders :: "string \<Rightarrow> exn + piece list" where
  "placeholders t =
     (case markup Text t of
        (ps, None) \<Rightarrow> Inr (filter (\<lambda>p. \<not> is_literal p) ps)
      | (ps, Some e) \<Rightarrow> Inl e)"

section \<open>Collaborators\<close>

text \<open>
  Modelled from the spec: the data types of \<open>phoenix.datasets.types\<close>, which this module
  imports. The evaluators read \<open>example.input\<close> and \<open>experiment_run.output.result\<close>, where
  \<open>output\<close> may be \<open>None\<close> (the field is \<open>run_output\<close> here), and build an
  \<open>EvaluationResult\<close> from a score, an explanation and a metadata mapping. \<open>'j\<close> is the
  type of JSON-serialisable payloads, \<open>'v\<close> the type of metadata values. The scores are the
  float literals \<open>1.0\<close> and \<open>0.0\<close>, which are exact.
\<close>

record 'j Example =
  input :: 'j

record 'j ExperimentResult =
  result :: 'j

record 'j ExperimentRun =
  run_output :: "'j ExperimentResult option"

record 'v EvaluationResult =
  score :: real
  explanation :: string
  metadata :: "string \<rightharpoonup> 'v"

text \<open>
  The functions this module imports or takes from the language, as parameters:
  \<open>_unwrap_json\<close> of \<open>phoenix.datasets.evaluators.utils\<close>, \<open>snap_to_rail\<close> of
  \<open>phoenix.evals.utils\<close>, and \<open>str\<close> on payloads.
\<close>

record 'j externals =
  unwrap_json :: "'j \<Rightarrow> 'j"
  snap_to_rail :: "string \<Rightarrow> string list \<Rightarrow> string"
  str :: "'j \<Rightarrow> string"

text \<open>
  The model handle: its two generation entry points, each returning the response or the
  exception the client raised. \<open>await\<close> is modelled as the call. The log records every
  invocation of an entry point, in order.
\<close>

record LLMBaseModel =
  generate :: "string \<Rightarrow> exn + string"
  async_generate :: "string \<Rightarrow> exn + string"

datatype call = Generate string | AsyncGenerate string

fun prompt_of :: "call \<Rightarrow> string" where
  "prompt_of (Generate p) = p"
| "prompt_of (AsyncGenerate p) = p"

section \<open>\<open>LLMCriteriaEvaluator\<close>\<close>

text \<open>
  The class attributes \<open>_base_template\<close> and \<open>_description\<close>, one literal for each line of
  the source, and the class method \<open>_format_base_template\<close>. The methods of the class take
  the imported helpers as their first argument \<open>ext\<close> and the evaluator as \<open>self\<close>.
\<close>

definition base_template :: string where
  "base_template =
     ''Determine if the following text is {criteria}. {description}''
     @ ''First, explain step-by-step why you think the text is or is not {criteria}. Then provide ''
     @ ''a single word label; 'true' if the text is {criteria} or 'false' if the text is not ''
     @ ''{criteria}. Here is an example template for whether the text meets a criteria:\<newline>\<newline>''
     @ ''CRITERIA: the text is '{criteria}'\<newline>''
     @ ''TEXT: *the provided text to evaluate*\<newline>''
     @ ''EXPLANATION: *a step by step explanation of your reasoning for whether the text meets ''
     @ ''the criteria*\<newline>''
     @ ''LABEL: *true or false*\<newline>\<newline>''
     @ ''Follow this template for the following example:\<newline>\<newline>''
     @ ''CRITERIA: the text is '{criteria}'\<newline>''
     @ ''TEXT: {text}\<newline>''
     @ ''EXPLANATION: ''"

definition description_template :: string where
  "description_template =
     ''In this context, '{criteria}' means the text '{description}'. ''"

text \<open>What \<open>str.format\<close> renders for an \<open>Optional[str]\<close> argument.\<close>

fun format_value :: "string option \<Rightarrow> string" where
  "format_value None = ''None''"
| "format_value (Some s) = s"

definition format_base_template :: "string \<Rightarrow> string option \<Rightarrow> exn + string" where
  "format_base_template criteria description =
     (case py_format description_template
             [''criteria'' \<mapsto> criteria, ''description'' \<mapsto> format_value description] of
        Inl e \<Rightarrow> Inl e
      | Inr formatted_description \<Rightarrow>
          py_format base_template
            [''criteria'' \<mapsto> criteria, ''description'' \<mapsto> formatted_description,
             ''text'' \<mapsto> ''{text}''])"

text \<open>The replacement fields left in a built template, by the reading \<open>str.format\<close>
  will make of it.\<close>

definition built_placeholders :: "string \<Rightarrow> string option \<Rightarrow> exn + piece list" where
  "built_placeholders criteria description =
     (case format_base_template criteria description of
        Inl e \<Rightarrow> Inl e
      | Inr t \<Rightarrow> placeholders t)"

text \<open>The attributes \<open>__init__\<close> sets. Building the template is the one step of
  \<open>__init__\<close> that can raise.\<close>

record LLMCriteriaEvaluator =
  model :: LLMBaseModel
  criteria :: string
  description :: string
  template :: string
  name :: string

definition LLMCriteriaEvaluator_init ::
  "LLMBaseModel \<Rightarrow> string \<Rightarrow> string \<Rightarrow> string \<Rightarrow> exn + LLMCriteriaEvaluator" where
  "LLMCriteriaEvaluator_init = (\<lambda>model criteria description name.
     (case format_base_template criteria (Some description) of
        Inl e \<Rightarrow> Inl e
      | Inr t \<Rightarrow>
          Inr \<lparr>model = model, criteria = criteria, description = description,
               template = t, name = name\<rparr>))"

definition format_eval_template ::
  "'j externals \<Rightarrow> LLMCriteriaEvaluator \<Rightarrow> 'j ExperimentRun \<Rightarrow> exn + string" where
  "format_eval_template ext self experiment_run =
     (case run_output experiment_run of
        None \<Rightarrow> Inl AssertionError
      | Some out \<Rightarrow>
          (let result = unwrap_json ext (result out)
           in py_format (template self) [''text'' \<mapsto> str ext result]))"

definition parse_eval_output :: "'j externals \<Rightarrow> string \<Rightarrow> exn + 'v EvaluationResult" where
  "parse_eval_output ext unparsed_response =
     (let raw_label = parse_label_from_explanation unparsed_response;
          explanation = unparsed_response;
          label = snap_to_rail ext raw_label [''true'', ''false'']
      in if label = ''true''
         then Inr \<lparr>score = 1, explanation = explanation, metadata = Map.empty\<rparr>
         else if label = ''false''
         then Inr \<lparr>score = 0, explanation = explanation, metadata = Map.empty\<rparr>
         else Inl (RuntimeError (''Could not parse LLM evaluation: '' @ unparsed_response)))"

text \<open>
  \<open>evaluate\<close> and \<open>async_evaluate\<close> take the log of calls made to the model so far and
  return it with theirs added: the prompt is logged when the entry point is invoked,
  whether it returns or raises.
\<close>

definition evaluate ::
  "'j externals \<Rightarrow> LLMCriteriaEvaluator \<Rightarrow> 'j Example \<Rightarrow> 'j ExperimentRun \<Rightarrow> call list
     \<Rightarrow> (exn + 'v EvaluationResult) \<times> call list" where
  "evaluate ext self example exp_run calls =
     (case format_eval_template ext self exp_run of
        Inl e \<Rightarrow> (Inl e, calls)
      | Inr formatted_template \<Rightarrow>
          (case generate (model self) formatted_template of
             Inl e \<Rightarrow> (Inl e, calls @ [Generate formatted_template])
           | Inr unparsed_response \<Rightarrow>
               (parse_eval_output ext unparsed_response, calls @ [Generate formatted_template])))"

definition async_evaluate ::
  "'j externals \<Rightarrow> LLMCriteriaEvaluator \<Rightarrow> 'j Example \<Rightarrow> 'j ExperimentRun \<Rightarrow> call list
     \<Rightarrow> (exn + 'v EvaluationResult) \<times> call list" where
  "async_evaluate ext self example exp_run calls =
     (case format_eval_template ext self exp_run of
        Inl e \<Rightarrow> (Inl e, calls)
      | Inr formatted_template \<Rightarrow>
          (case async_generate (model self) formatted_template of
             Inl e \<Rightarrow> (Inl e, calls @ [AsyncGenerate formatted_template])
           | Inr unparsed_response \<Rightarrow>
               (parse_eval_output ext unparsed_response,
                calls @ [AsyncGenerate formatted_template])))"

section \<open>\<open>criteria_evaluator_factory\<close> and the built-in evaluators\<close>

text \<open>
  The class the factory creates: its name, its \<open>template\<close> attribute, computed when the
  class is created, and its \<open>__init__\<close>, whose \<open>name\<close> argument is optional.
\<close>

record evaluator_class =
  class_name :: string
  class_template :: string
  init :: "LLMBaseModel \<Rightarrow> string option \<Rightarrow> exn + LLMCriteriaEvaluator"

definition criteria_evaluator_factory ::
  "string \<Rightarrow> string \<Rightarrow> string \<Rightarrow> string \<Rightarrow> exn + evaluator_class" where
  "criteria_evaluator_factory = (\<lambda>class_name criteria description default_name.
     (case format_base_template criteria (Some description) of
        Inl e \<Rightarrow> Inl e
      | Inr t \<Rightarrow>
          Inr \<lparr>class_name = class_name,
               class_template = t,
               init = (\<lambda>model name.
                 LLMCriteriaEvaluator_init model criteria description
                   (case name of None \<Rightarrow> default_name | Some n \<Rightarrow> n))\<rparr>))"

definition ConcisenessEvaluator :: "exn + evaluator_class" where
  "ConcisenessEvaluator =
     criteria_evaluator_factory ''ConcisenessEvaluator'' ''concise''
       ''is just a few sentences and easy to follow'' ''Conciseness''"

definition HelpfulnessEvaluator :: "exn + evaluator_class" where
  "HelpfulnessEvaluator =
     criteria_evaluator_factory ''HelpfulnessEvaluator'' ''helpful''
       ''provides useful information'' ''Helpfulness''"

definition CoherenceEvaluator :: "exn + evaluator_class" where
  "CoherenceEvaluator =
     criteria_evaluator_factory ''CoherenceEvaluator'' ''coherent''
       ''is coherent, well-structured, and logically sound'' ''Coherence''"

section \<open>\<open>RelevanceEvaluator\<close>\<close>

text \<open>
  The class attribute \<open>template\<close>, one literal for each line of the source, and the
  methods of the class. An extraction function returns its string or the exception it
  raised.
\<close>

definition relevance_template :: string where
  "relevance_template =
     ''Determine if the following response is relevant to the query. In this context, ''
     @ [CHR 0x27] @ ''relevance' means that the response directly addresses the core question or topic of the ''
     @ ''query. First, explain step-by-step why you think the text is or is not relevant. ''
     @ ''Then provide a single word label; 'true' if the text is relevant or 'false' if the text ''
     @ ''is not relevant. ''
     @ ''Here is an example template for your reponse:\<newline>\<newline>''
     @ ''CRITERIA: the response is 'relevant' to the query\<newline>''
     @ ''QUERY: *text that contains a query*\<newline>''
     @ ''RESPONSE: *a response that may or may not be relevant to the query*\<newline>''
     @ ''EXPLANATION: *a step by step explanation of your reasoning for whether or not the ''
     @ ''response is relevant to the query*\<newline>''
     @ ''LABEL: *true or false*\<newline>\<newline>''
     @ ''Follow this template for the following example:\<newline>\<newline>''
     @ ''CRITERIA: the response is 'relevant' to the query\<newline>''
     @ ''QUERY: {reference}\<newline>''
     @ ''RESPONSE: {submission}\<newline>''
     @ ''EXPLANATION: ''"

record 'j RelevanceEvaluator =
  relevance_model :: LLMBaseModel
  relevance_name :: string
  get_query :: "'j Example \<Rightarrow> 'j ExperimentRun \<Rightarrow> exn + string"
  get_response :: "'j Example \<Rightarrow> 'j ExperimentRun \<Rightarrow> exn + string"

definition default_get_query ::
  "'j externals \<Rightarrow> 'j Example \<Rightarrow> 'j ExperimentRun \<Rightarrow> exn + string" where
  "default_get_query ext example experiment_run = Inr (str ext (input example))"

definition default_get_response ::
  "'j externals \<Rightarrow> 'j Example \<Rightarrow> 'j ExperimentRun \<Rightarrow> exn + string" where
  "default_get_response ext example experiment_run =
     (case run_output experiment_run of
        None \<Rightarrow> Inl AssertionError
      | Some out \<Rightarrow> Inr (str ext (unwrap_json ext (result out))))"

definition RelevanceEvaluator_init ::
  "'j externals \<Rightarrow> LLMBaseModel
     \<Rightarrow> ('j Example \<Rightarrow> 'j ExperimentRun \<Rightarrow> exn + string) option
     \<Rightarrow> ('j Example \<Rightarrow> 'j ExperimentRun \<Rightarrow> exn + string) option
     \<Rightarrow> string option \<Rightarrow> 'j RelevanceEvaluator" where
  "RelevanceEvaluator_init ext = (\<lambda>model get_query get_response name.
     \<lparr>relevance_model = model,
      relevance_name = (case name of None \<Rightarrow> ''RelevanceEvaluator'' | Some n \<Rightarrow> n),
      get_query = (case get_query of None \<Rightarrow> default_get_query ext | Some f \<Rightarrow> f),
      get_response = (case get_response of None \<Rightarrow> default_get_response ext | Some f \<Rightarrow> f)\<rparr>)"

definition relevance_format_eval_template ::
  "'j RelevanceEvaluator \<Rightarrow> 'j Example \<Rightarrow> 'j ExperimentRun \<Rightarrow> exn + string" where
  "relevance_format_eval_template self example experiment_run =
     (case run_output experiment_run of
        None \<Rightarrow> Inl AssertionError
      | Some out \<Rightarrow>
          (case get_query self example experiment_run of
             Inl e \<Rightarrow> Inl e
           | Inr query \<Rightarrow>
               (case get_response self example experiment_run of
                  Inl e \<Rightarrow> Inl e
                | Inr response \<Rightarrow>
                    py_format relevance_template
                      [''query'' \<mapsto> query, ''response'' \<mapsto> response])))"

definition relevance_parse_eval_output ::
  "'j externals \<Rightarrow> string \<Rightarrow> exn + 'v EvaluationResult" where
  "relevance_parse_eval_output ext unparsed_response =
     (let raw_label = parse_label_from_explanation unparsed_response;
          explanation = unparsed_response;
          label = snap_to_rail ext raw_label [''true'', ''false'']
      in if label = ''true''
         then Inr \<lparr>score = 1, explanation = explanation, metadata = Map.empty\<rparr>
         else if label = ''false''
         then Inr \<lparr>score = 0, explanation = explanation, metadata = Map.empty\<rparr>
         else Inl (RuntimeError (''Could not parse LLM evaluation: '' @ unparsed_response)))"

definition relevance_evaluate ::
  "'j externals \<Rightarrow> 'j RelevanceEvaluator \<Rightarrow> 'j Example \<Rightarrow> 'j ExperimentRun \<Rightarrow> call list
     \<Rightarrow> (exn + 'v EvaluationResult) \<times> call list" where
  "relevance_evaluate ext self example exp_run calls =
     (case relevance_format_eval_template self example exp_run of
        Inl e \<Rightarrow> (Inl e, calls)
      | Inr formatted_template \<Rightarrow>
          (case generate (relevance_model self) formatted_template of
             Inl e \<Rightarrow> (Inl e, calls @ [Generate formatted_template])
           | Inr unparsed_response \<Rightarrow>
               (relevance_parse_eval_output ext unparsed_response,
                calls @ [Generate formatted_template])))"

definition relevance_async_evaluate ::
  "'j externals \<Rightarrow> 'j RelevanceEvaluator \<Rightarrow> 'j Example \<Rightarrow> 'j ExperimentRun \<Rightarrow> call list
     \<Rightarrow> (exn + 'v EvaluationResult) \<times> call list" where
  "relevance_async_evaluate ext self example exp_run calls =
     (case relevance_format_eval_template self example exp_run of
        Inl e \<Rightarrow> (Inl e, calls)
      | Inr formatted_template \<Rightarrow>
          (case async_generate (relevance_model self) formatted_template of
             Inl e \<Rightarrow> (Inl e, calls @ [AsyncGenerate formatted_template])
           | Inr unparsed_response \<Rightarrow>
               (relevance_parse_eval_output ext unparsed_response,
                calls @ [AsyncGenerate formatted_template])))"


section \<open>What the matcher computes\<close>

text \<open>
  \<open>ci_label l\<close>: \<open>l\<close> is the five letters of \<open>label\<close> in some case. \<open>contains_label s\<close>:
  the letters occur somewhere in \<open>s\<close>. A match of the delimiter at the start of a text is
  its leading non-word characters, the letters, and the non-word characters that follow
  (\<open>re_match_eq\<close>): giving back non-word characters never helps, since the next character
  would have to be the letter \<open>l\<close>.
\<close>

abbreviation nonword :: "char \<Rightarrow> bool" where
  "nonword c \<equiv> \<not> is_word c"

definition ci_label :: "string \<Rightarrow> bool" where
  "ci_label l = (map ascii_lower l = ''label'')"

definition starts_label :: "string \<Rightarrow> bool" where
  "starts_label s = ci_label (take 5 s)"

fun contains_label :: "string \<Rightarrow> bool" where
  "contains_label [] = False"
| "contains_label (c # cs) = (starts_label (c # cs) \<or> contains_label cs)"

lemma nonword_star_accept: "nonword_star accept s = Some (length (takeWhile nonword s))"
  by (induction s) (auto simp: accept_def)

lemma literal_ic_eq:
  "literal_ic ps k s =
     (if map ascii_lower (take (length ps) s) = ps
      then map_option (\<lambda>n. length ps + n) (k (drop (length ps) s)) else None)"
proof (induction ps arbitrary: s)
  case Nil
  then show ?case by (cases "k s") simp_all
next
  case (Cons p ps)
  then show ?case by (cases s) (auto simp: option.map_comp comp_def)
qed

lemma ascii_lower_l_word: "ascii_lower c = CHR ''l'' \<Longrightarrow> is_word c"
proof (cases "65 \<le> (of_char c :: nat) \<and> (of_char c :: nat) \<le> 90")
  case True
  then show ?thesis by (simp add: is_word_def)
next
  case False
  assume "ascii_lower c = CHR ''l''"
  with False have "c = CHR ''l''" by (auto simp: ascii_lower_def Let_def)
  then show ?thesis by (simp add: is_word_def)
qed

lemma starts_label_word: "starts_label s \<Longrightarrow> s \<noteq> [] \<and> is_word (hd s)"
  by (cases s) (auto simp: starts_label_def ci_label_def ascii_lower_l_word)

lemma nonword_star_skip:
  assumes "\<And>t. t = [] \<or> nonword (hd t) \<Longrightarrow> k t = None"
  shows "nonword_star k s =
           map_option (\<lambda>n. length (takeWhile nonword s) + n) (k (dropWhile nonword s))"
proof (induction s)
  case Nil
  then show ?case using assms[of "[]"] by simp
next
  case (Cons c cs)
  show ?case
  proof (cases "is_word c")
    case True
    then show ?thesis by (cases "k (c # cs)") simp_all
  next
    case False
    then have "k (c # cs) = None" using assms[of "c # cs"] by simp
    with False Cons.IH show ?thesis
      by (cases "k (dropWhile nonword cs)") auto
  qed
qed

lemma re_match_eq:
  "re_match s =
     (if starts_label (dropWhile nonword s)
      then Some (length (takeWhile nonword s) + 5
                 + length (takeWhile nonword (drop 5 (dropWhile nonword s))))
      else None)"
proof -
  let ?k = "literal_ic ''label'' (nonword_star accept)"
  have k: "?k t = (if starts_label t then Some (5 + length (takeWhile nonword (drop 5 t))) else None)" for t
    using literal_ic_eq[of "''label''" "nonword_star accept" t]
    by (simp add: starts_label_def ci_label_def nonword_star_accept eval_nat_numeral)
  have "?k t = None" if "t = [] \<or> nonword (hd t)" for t
    using that starts_label_word[of t] by (auto simp: k)
  from nonword_star_skip[of ?k, OF this] show ?thesis
    unfolding re_match_def by (simp add: k)
qed


declare re_split.simps [simp del]

lemma starts_label_length: "starts_label s \<Longrightarrow> 5 \<le> length s"
proof -
  assume "starts_label s"
  then have "length (map ascii_lower (take 5 s)) = length ''label''"
    by (simp add: starts_label_def ci_label_def)
  then show ?thesis by simp
qed

lemma ci_label_length: "ci_label l \<Longrightarrow> length l = 5"
proof -
  assume "ci_label l"
  then have "length (map ascii_lower l) = length ''label''"
    by (simp add: ci_label_def)
  then show ?thesis by simp
qed

lemma ci_label_starts: "ci_label l \<Longrightarrow> starts_label (l @ t)"
  using ci_label_length[of l] by (simp add: starts_label_def)

lemma starts_label_split: "starts_label s \<Longrightarrow> \<exists>l t. s = l @ t \<and> ci_label l"
  using append_take_drop_id[of 5 s, symmetric] unfolding starts_label_def by blast

lemma ci_label_word: "ci_label l \<Longrightarrow> l \<noteq> [] \<and> is_word (hd l)"
  using starts_label_word[of l] ci_label_starts[of l "[]"] by simp

lemma starts_label_contains: "starts_label s \<Longrightarrow> contains_label s"
  by (cases s) (auto simp: starts_label_def ci_label_def)

lemma contains_label_append: "contains_label t \<Longrightarrow> contains_label (u @ t)"
  by (induction u) auto

lemma starts_label_prefix: "starts_label u \<Longrightarrow> starts_label (u @ t)"
  using starts_label_length[of u] by (simp add: starts_label_def)

lemma contains_label_prefix: "contains_label u \<Longrightarrow> contains_label (u @ t)"
proof (induction u)
  case Nil
  then show ?case by simp
next
  case (Cons c cs)
  then show ?case using starts_label_prefix[of "c # cs" t] by auto
qed

lemma contains_label_iff:
  "contains_label s \<longleftrightarrow> (\<exists>pre l post. s = pre @ l @ post \<and> ci_label l)"
proof
  show "contains_label s \<Longrightarrow> \<exists>pre l post. s = pre @ l @ post \<and> ci_label l"
  proof (induction s)
    case Nil
    then show ?case by simp
  next
    case (Cons c cs)
    show ?case
    proof (cases "starts_label (c # cs)")
      case True
      then obtain l t where "c # cs = l @ t" "ci_label l" using starts_label_split by blast
      then have "c # cs = [] @ l @ t \<and> ci_label l" by simp
      then show ?thesis by blast
    next
      case False
      with Cons.prems have "contains_label cs" by simp
      with Cons.IH obtain pre l post where "cs = pre @ l @ post" "ci_label l" by blast
      then have "c # cs = (c # pre) @ l @ post \<and> ci_label l" by simp
      then show ?thesis by blast
    qed
  qed
next
  assume "\<exists>pre l post. s = pre @ l @ post \<and> ci_label l"
  then obtain pre l post where s: "s = pre @ l @ post" and l: "ci_label l" by blast
  from l have "contains_label (l @ post)"
    by (rule starts_label_contains[OF ci_label_starts])
  then show "contains_label s" unfolding s by (rule contains_label_append)
qed

lemma re_match_Nil: "re_match [] = None"
  by (simp add: re_match_eq starts_label_def ci_label_def)

lemma re_match_contains: "re_match s = Some n \<Longrightarrow> contains_label s"
proof -
  assume "re_match s = Some n"
  then have "starts_label (dropWhile nonword s)"
    by (simp add: re_match_eq split: if_splits)
  then have "contains_label (takeWhile nonword s @ dropWhile nonword s)"
    by (intro contains_label_append starts_label_contains)
  then show ?thesis by simp
qed

lemma starts_label_match: "starts_label s \<Longrightarrow> re_match s \<noteq> None"
proof -
  assume a: "starts_label s"
  then have "s \<noteq> []" "is_word (hd s)" using starts_label_word by blast+
  then have "dropWhile nonword s = s" by (cases s) auto
  with a show ?thesis by (simp add: re_match_eq)
qed

lemma re_search_None_iff: "re_search s = None \<longleftrightarrow> \<not> contains_label s"
proof (induction s)
  case Nil
  then show ?case by (simp add: re_match_Nil)
next
  case (Cons c cs)
  show ?case
  proof (cases "re_match (c # cs)")
    case None
    then have "\<not> starts_label (c # cs)" using starts_label_match by blast
    with None Cons.IH show ?thesis by simp
  next
    case (Some n)
    then show ?thesis using re_match_contains[OF Some] by simp
  qed
qed

lemma re_search_Some_match: "re_search s = Some (i, n) \<Longrightarrow> re_match (drop i s) = Some n"
proof (induction s arbitrary: i)
  case Nil
  then show ?case by (simp add: re_match_Nil)
next
  case (Cons c cs)
  show ?case
  proof (cases "re_match (c # cs)")
    case None
    with Cons.prems obtain j where "re_search cs = Some (j, n)" "i = Suc j" by auto
    with Cons.IH show ?thesis by simp
  next
    case (Some m)
    with Cons.prems show ?thesis by simp
  qed
qed

lemma re_match_delim:
  assumes "list_all nonword w1" "ci_label l" "list_all nonword w2"
  shows "re_match (w1 @ l @ w2 @ v) = Some (length w1 + 5 + length w2 + length (takeWhile nonword v))"
proof -
  from assms(2) obtain c cs where l: "l = c # cs" "is_word c"
    using ci_label_word[of l] by (cases l) auto
  from assms(1) have w1: "\<forall>x\<in>set w1. nonword x" by (simp add: list_all_iff)
  from assms(3) have w2: "\<forall>x\<in>set w2. nonword x" by (simp add: list_all_iff)
  have t: "takeWhile nonword (w1 @ l @ w2 @ v) = w1"
    using w1 l by (simp add: takeWhile_append2)
  have d: "dropWhile nonword (w1 @ l @ w2 @ v) = l @ w2 @ v"
    using w1 l by (simp add: dropWhile_append2)
  have s: "starts_label (l @ w2 @ v)" using assms(2) by (rule ci_label_starts)
  have r: "drop 5 (l @ w2 @ v) = w2 @ v" using ci_label_length[OF assms(2)] by simp
  have t2: "takeWhile nonword (w2 @ v) = w2 @ takeWhile nonword v"
    using w2 by (simp add: takeWhile_append2)
  have "re_match (w1 @ l @ w2 @ v) = Some (length w1 + 5 + length (w2 @ takeWhile nonword v))"
    by (simp only: re_match_eq t d s r t2 if_True)
  then show ?thesis by simp
qed

lemma re_match_decomp:
  assumes "re_match t = Some n"
  shows "\<exists>w1 l w2 v. t = w1 @ l @ w2 @ v \<and> list_all nonword w1 \<and> ci_label l \<and> list_all nonword w2
           \<and> (v = [] \<or> is_word (hd v)) \<and> n = length w1 + 5 + length w2"
proof -
  let ?w1 = "takeWhile nonword t" and ?r = "dropWhile nonword t"
  let ?l = "take 5 ?r" and ?u = "drop 5 ?r"
  let ?w2 = "takeWhile nonword ?u" and ?v = "dropWhile nonword ?u"
  from assms have sl: "starts_label ?r" and n: "n = length ?w1 + 5 + length ?w2"
    by (auto simp: re_match_eq split: if_splits)
  have "t = ?w1 @ ?l @ ?w2 @ ?v" by simp
  moreover have "list_all nonword ?w1" "list_all nonword ?w2"
    by (auto simp: list_all_iff dest: set_takeWhileD)
  moreover have "ci_label ?l" using sl by (simp add: starts_label_def)
  moreover have "?v = [] \<or> is_word (hd ?v)" using hd_dropWhile[of nonword ?u] by auto
  ultimately show ?thesis using n by blast
qed

lemma re_split_no_label: "\<not> contains_label s \<Longrightarrow> re_split s = [s]"
proof -
  assume "\<not> contains_label s"
  then have "re_search s = None" by (simp add: re_search_None_iff)
  then show ?thesis by (subst re_split.simps) simp
qed

lemma concat_re_split: "concat (re_split s) = s"
proof (induction s rule: re_split.induct)
  case (1 s)
  show ?case
  proof (cases "re_search s")
    case None
    then show ?thesis by (subst re_split.simps) simp
  next
    case (Some p)
    obtain i n where p: "p = (i, n)" by (cases p)
    have "concat (re_split s) = take i s @ take n (drop i s) @ concat (re_split (drop (i + n) s))"
      by (subst re_split.simps) (simp add: Some p)
    also have "\<dots> = take i s @ take n (drop i s) @ drop (i + n) s"
      using "1.IH"[OF Some p[symmetric]] by simp
    also have "\<dots> = s" by (simp add: add.commute[of i n] flip: drop_drop)
    finally show ?thesis .
  qed
qed

lemma re_split_last:
  "contains_label s \<Longrightarrow>
     \<exists>ps w1 l w2 rest. re_split s = ps @ [w1 @ l @ w2, rest] \<and> list_all nonword w1 \<and> ci_label l
        \<and> list_all nonword w2 \<and> \<not> contains_label rest \<and> (rest = [] \<or> is_word (hd rest))"
proof (induction s rule: re_split.induct)
  case (1 s)
  from "1.prems" obtain i n where sr: "re_search s = Some (i, n)"
    using re_search_None_iff[of s] by (cases "re_search s") auto
  from re_match_decomp[OF re_search_Some_match[OF sr]]
  obtain w1 l w2 v where d: "drop i s = w1 @ l @ w2 @ v" "list_all nonword w1" "ci_label l"
      "list_all nonword w2" "v = [] \<or> is_word (hd v)" "n = length w1 + 5 + length w2"
    by blast
  have len: "length l = 5" using d(3) by (rule ci_label_length)
  have tk: "take n (drop i s) = w1 @ l @ w2" by (simp add: d(1) d(6) len)
  have "drop (i + n) s = drop n (drop i s)" by (simp add: add.commute)
  also have "\<dots> = v" by (simp add: d(1) d(6) len)
  finally have dr: "drop (i + n) s = v" .
  have sp: "re_split s = take i s # (w1 @ l @ w2) # re_split v"
    by (subst re_split.simps) (simp add: sr tk dr)
  show ?case
  proof (cases "contains_label v")
    case False
    then have "re_split s = [take i s] @ [w1 @ l @ w2, v]"
      by (simp add: sp re_split_no_label)
    with d False show ?thesis by blast
  next
    case True
    from "1.IH"[OF sr refl, unfolded dr, OF True]
    obtain ps w1' l' w2' rest where r: "re_split v = ps @ [w1' @ l' @ w2', rest]"
       "list_all nonword w1'" "ci_label l'" "list_all nonword w2'" "\<not> contains_label rest"
       "rest = [] \<or> is_word (hd rest)"
      by blast
    then have "re_split s = (take i s # (w1 @ l @ w2) # ps) @ [w1' @ l' @ w2', rest]"
      by (simp add: sp)
    with r show ?thesis by blast
  qed
qed

lemma parse_label_last:
  assumes "re_split raw = ps @ [d, rest]" "re_match d \<noteq> None"
  shows "parse_label_from_explanation raw = strip rest"
proof -
  have "length (re_split raw) - 1 = Suc (length ps)" by (simp add: assms(1))
  moreover have "(ps @ [d, rest]) ! length ps = d" by simp
  moreover have "(ps @ [d, rest]) ! Suc (length ps) = rest"
    by (simp add: nth_append)
  ultimately show ?thesis
    using assms by (simp add: parse_label_from_explanation_def Let_def)
qed


text \<open>
  Two occurrences of the letters can overlap in one way only, the last \<open>l\<close> of the first
  being the first \<open>l\<close> of the second. \<open>ends_labe pre\<close>: the text \<open>pre\<close> ends with the first
  four letters, so that an occurrence right after \<open>pre\<close> may overlap one that began in it.
\<close>

definition ends_labe :: "string \<Rightarrow> bool" where
  "ends_labe pre = (map ascii_lower (drop (length pre - 4) pre) = ''labe'')"

lemma ends_labe_length: "ends_labe x \<Longrightarrow> 4 \<le> length x"
proof -
  assume "ends_labe x"
  then have "length (map ascii_lower (drop (length x - 4) x)) = length ''labe''"
    by (simp add: ends_labe_def)
  then show ?thesis by simp
qed

lemma ends_labe_append: "ends_labe x \<Longrightarrow> ends_labe (u @ x)"
  using ends_labe_length[of x] by (simp add: ends_labe_def)

lemma re_split_match:
  assumes "re_match s = Some n"
  shows "re_split s = [] # take n s # re_split (drop n s)"
proof (cases s)
  case Nil
  with assms show ?thesis by (simp add: re_match_Nil)
next
  case (Cons c cs)
  with assms have "re_search s = Some (0, n)" by simp
  then show ?thesis by (subst re_split.simps) simp
qed

lemma re_split_nomatch:
  assumes "re_match (c # cs) = None"
  shows "re_split (c # cs) = (c # hd (re_split cs)) # tl (re_split cs)"
proof (cases "re_search cs")
  case None
  then have "re_search (c # cs) = None" using assms by simp
  then have "re_split (c # cs) = [c # cs]" by (subst re_split.simps) simp
  moreover from None have "re_split cs = [cs]" by (subst re_split.simps) simp
  ultimately show ?thesis by simp
next
  case (Some p)
  obtain i n where p: "p = (i, n)" by (cases p)
  from Some p assms have "re_search (c # cs) = Some (Suc i, n)" by simp
  then have "re_split (c # cs) = (c # take i cs) # take n (drop i cs) # re_split (drop (i + n) cs)"
    by (subst re_split.simps) simp
  moreover from Some p have "re_split cs = take i cs # take n (drop i cs) # re_split (drop (i + n) cs)"
    by (subst re_split.simps) simp
  ultimately show ?thesis by simp
qed

lemma nonword_run:
  assumes "list_all nonword w2" "v = [] \<or> is_word (hd v)"
  shows "dropWhile nonword (w2 @ v) = v"
proof -
  from assms(1) have "\<forall>x\<in>set w2. nonword x" by (simp add: list_all_iff)
  then have "dropWhile nonword (w2 @ v) = dropWhile nonword v" by (simp add: dropWhile_append2)
  also have "\<dots> = v" using assms(2) by (cases v) auto
  finally show ?thesis .
qed

lemma label_letters:
  assumes "ci_label l" "j < 5"
  shows "ascii_lower (l ! j) = ''label'' ! j"
proof -
  have "length l = 5" using assms(1) by (rule ci_label_length)
  with assms(2) have "ascii_lower (l ! j) = map ascii_lower l ! j" by simp
  with assms(1) show ?thesis by (simp add: ci_label_def)
qed

lemma append_eq_prefix:
  assumes "a @ b = c @ d" "length a \<le> length c"
  shows "\<exists>e. c = a @ e \<and> b = e @ d"
proof -
  from assms(1) have "take (length a) (a @ b) = take (length a) (c @ d)" by simp
  with assms(2) have a: "a = take (length a) c" by simp
  from assms(1) have "drop (length a) (a @ b) = drop (length a) (c @ d)" by simp
  with assms(2) have b: "b = drop (length a) c @ d" by simp
  have "c = take (length a) c @ drop (length a) c" by simp
  with a have "c = a @ drop (length a) c" by simp
  with b show ?thesis by blast
qed

lemma split_embedded:
  assumes l: "ci_label l" and rest: "\<not> contains_label rest"
  shows "\<not> ends_labe pre \<Longrightarrow>
         \<exists>ps d. ps \<noteq> [] \<and> re_split (pre @ l @ rest) = ps @ [d, dropWhile nonword rest]
                \<and> re_match d \<noteq> None"
proof (induction pre rule: length_induct)
  case (1 pre)
  let ?s = "pre @ l @ rest" and ?R = "dropWhile nonword rest"
  have len: "length l = 5" using l by (rule ci_label_length)
  have hdl: "l \<noteq> []" "is_word (hd l)" using ci_label_word[OF l] by simp_all
  have hd0: "ascii_lower (hd l) = CHR ''l''"
    using label_letters[OF l, of 0] hdl(1) by (simp add: hd_conv_nth)
  show ?case
  proof (cases "re_match ?s")
    case None
    have "pre \<noteq> []"
    proof
      assume "pre = []"
      then have "starts_label ?s" using ci_label_starts[OF l] by simp
      with None show False using starts_label_match by blast
    qed
    then obtain c cs where pre: "pre = c # cs" by (cases pre) auto
    have "\<not> ends_labe cs" using "1.prems" ends_labe_append[of cs "[c]"] unfolding pre by auto
    moreover have "length cs < length pre" by (simp add: pre)
    ultimately have "\<exists>ps d. ps \<noteq> [] \<and> re_split (cs @ l @ rest) = ps @ [d, ?R] \<and> re_match d \<noteq> None"
      using "1.IH"[rule_format, of cs] by blast
    then obtain ps d where
      ih: "ps \<noteq> []" "re_split (cs @ l @ rest) = ps @ [d, ?R]" "re_match d \<noteq> None"
      by blast
    from ih(1) obtain p ps' where ps: "ps = p # ps'" by (cases ps) auto
    from None have "re_split ?s = (c # hd (re_split (cs @ l @ rest))) # tl (re_split (cs @ l @ rest))"
      unfolding pre by (simp add: re_split_nomatch)
    then have "re_split ?s = ((c # p) # ps') @ [d, ?R]" by (simp add: ih(2) ps)
    with ih(3) show ?thesis by blast
  next
    case (Some n)
    from re_match_decomp[OF Some] obtain w1 l' w2 v where
      d: "?s = w1 @ l' @ w2 @ v" "list_all nonword w1" "ci_label l'" "list_all nonword w2"
         "v = [] \<or> is_word (hd v)" "n = length w1 + 5 + length w2"
      by blast
    have len': "length l' = 5" using d(3) by (rule ci_label_length)
    have w1: "\<forall>x\<in>set w1. nonword x" using d(2) by (simp add: list_all_iff)
    have w2: "\<forall>x\<in>set w2. nonword x" using d(4) by (simp add: list_all_iff)
    have tk: "take n ?s = w1 @ l' @ w2" by (simp add: d(1) d(6) len')
    have dr: "drop n ?s = v" by (simp add: d(1) d(6) len')
    have sp: "re_split ?s = [] # (w1 @ l' @ w2) # re_split v"
      using re_split_match[OF Some] by (simp only: tk dr)
    have md: "re_match (w1 @ l' @ w2) \<noteq> None"
      using re_match_delim[OF d(2) d(3) d(4), of "[]"] by simp
    have at: "?s ! length pre = hd l" using hdl(1) by (simp add: nth_append hd_conv_nth)
    have not_gt: "\<not> length pre < length w1"
    proof
      assume "length pre < length w1"
      then have "?s ! length pre = w1 ! length pre" by (simp add: d(1) nth_append)
      with at have "hd l \<in> set w1" using \<open>length pre < length w1\<close> by (metis nth_mem)
      with w1 hdl(2) show False by blast
    qed
    consider (eq) "length pre = length w1" | (over) "length w1 < length pre" "length pre < length w1 + 5"
      | (cont) "length w1 + 5 \<le> length pre"
      using not_gt by linarith
    then show ?thesis
    proof cases
      case eq
      with d(1) have "pre = w1" "l @ rest = l' @ w2 @ v" by simp_all
      with len len' have "rest = w2 @ v" by simp
      then have R: "?R = v" using nonword_run[OF d(4) d(5)] by simp
      have "\<not> contains_label v" using rest contains_label_append[of v w2] \<open>rest = w2 @ v\<close> by auto
      then have "re_split ?s = [[]] @ [w1 @ l' @ w2, ?R]" by (simp add: sp R re_split_no_label)
      with md show ?thesis by blast
    next
      case over
      define j where "j = length pre - length w1"
      have j: "0 < j" "j < 5" "length pre = length w1 + j" using over by (simp_all add: j_def)
      have "?s ! length pre = l' ! j" by (simp add: d(1) nth_append j len')
      with at have "ascii_lower (l' ! j) = CHR ''l''" using hd0 by simp
      with label_letters[OF d(3) j(2)] have lj: "''label'' ! j = CHR ''l''" by simp
      have "j = 4"
      proof -
        from j have "j = 1 \<or> j = 2 \<or> j = 3 \<or> j = 4" by arith
        with lj show ?thesis by auto
      qed
      have "pre = take (length pre) ?s" by simp
      also have "\<dots> = w1 @ take 4 l'" by (simp add: d(1) j \<open>j = 4\<close> len')
      finally have pre: "pre = w1 @ take 4 l'" .
      have "drop (length pre - 4) pre = take 4 l'" by (subst (2) pre) (simp add: j \<open>j = 4\<close>)
      moreover have "map ascii_lower (take 4 l') = take 4 (map ascii_lower l')" by (simp add: take_map)
      ultimately have "ends_labe pre" using d(3) by (simp add: ends_labe_def ci_label_def)
      with "1.prems" show ?thesis by simp
    next
      case cont
      have "take (length w1 + 5) pre = take (length w1 + 5) ?s" using cont by simp
      also have "\<dots> = w1 @ l'" by (simp add: d(1) len')
      finally have "take (length w1 + 5) pre = w1 @ l'" .
      then have "pre = (w1 @ l') @ drop (length w1 + 5) pre"
        using append_take_drop_id[of "length w1 + 5" pre] by simp
      then obtain pre2 where pre2: "pre = w1 @ l' @ pre2" by (metis append_assoc)
      with d(1) have e: "w2 @ v = pre2 @ l @ rest" by simp
      have "\<not> length pre2 < length w2"
      proof
        assume a: "length pre2 < length w2"
        have "(pre2 @ l @ rest) ! length pre2 = hd l" using hdl(1) by (simp add: nth_append hd_conv_nth)
        moreover have "(w2 @ v) ! length pre2 = w2 ! length pre2" using a by (simp add: nth_append)
        ultimately have "hd l \<in> set w2" using a e by (metis nth_mem)
        with w2 hdl(2) show False by blast
      qed
      then have "length w2 \<le> length pre2" by simp
      with append_eq_prefix[OF e] obtain pre3 where pre3: "pre2 = w2 @ pre3" "v = pre3 @ l @ rest"
        by blast
      have "length pre3 < length pre" by (simp add: pre2 pre3 len')
      moreover have "\<not> ends_labe pre3"
        using "1.prems" ends_labe_append[of pre3 "w1 @ l' @ w2"] by (auto simp: pre2 pre3)
      ultimately have "\<exists>ps d. ps \<noteq> [] \<and> re_split (pre3 @ l @ rest) = ps @ [d, ?R] \<and> re_match d \<noteq> None"
        using "1.IH"[rule_format, of pre3] by blast
      then obtain ps d where
        ih: "ps \<noteq> []" "re_split v = ps @ [d, ?R]" "re_match d \<noteq> None"
        unfolding pre3(2) by blast
      have "re_split ?s = ([] # (w1 @ l' @ w2) # ps) @ [d, ?R]" by (simp add: sp ih(2))
      with ih(3) show ?thesis by blast
    qed
  qed
qed

section \<open>Templates as lists of chunks\<close>

text \<open>
  A template written as its literal text and its replacement fields, in order. The format
  strings of this module are such lists (\<open>base_template_chunks\<close> and its siblings), and
  \<open>str.format\<close> fills a list chunk by chunk (\<open>py_format_flat\<close>).
\<close>

datatype chunk = Lit string | Fld string

definition braces :: "string \<Rightarrow> string" where
  "braces n = CHR ''{'' # n @ ''}''"

fun flat :: "chunk list \<Rightarrow> string" where
  "flat [] = []"
| "flat (Lit s # cs) = s @ flat cs"
| "flat (Fld n # cs) = braces n @ flat cs"

definition brace_free :: "string \<Rightarrow> bool" where
  "brace_free s = (CHR ''{'' \<notin> set s \<and> CHR ''}'' \<notin> set s)"

definition plain :: "string \<Rightarrow> bool" where
  "plain n = (set n \<inter> {CHR ''{'', CHR ''}'', CHR ''['', CHR '':'', CHR ''!''} = {})"

fun chunk_ok :: "chunk \<Rightarrow> bool" where
  "chunk_ok (Lit s) = brace_free s"
| "chunk_ok (Fld n) = plain n"

fun chunk_pieces :: "chunk \<Rightarrow> piece list" where
  "chunk_pieces (Lit s) = map Literal s"
| "chunk_pieces (Fld n) = [Replacement n]"

fun fill :: "(string \<rightharpoonup> string) \<Rightarrow> chunk list \<Rightarrow> exn + string" where
  "fill kwargs [] = Inr []"
| "fill kwargs (Lit s # cs) =
     (case fill kwargs cs of Inl e \<Rightarrow> Inl e | Inr r \<Rightarrow> Inr (s @ r))"
| "fill kwargs (Fld n # cs) =
     (case get_field kwargs n of
        Inl e \<Rightarrow> Inl e
      | Inr v \<Rightarrow> (case fill kwargs cs of Inl e \<Rightarrow> Inl e | Inr r \<Rightarrow> Inr (v @ r)))"

definition base_chunks :: "chunk list" where
  "base_chunks =
     [Lit ''Determine if the following text is '',
      Fld ''criteria'',
      Lit ''. '',
      Fld ''description'',
      Lit ''First, explain step-by-step why you think the text is or is not '',
      Fld ''criteria'',
      Lit (''. Then provide ''
           @ ''a single word label; 'true' if the text is ''),
      Fld ''criteria'',
      Lit '' or 'false' if the text is not '',
      Fld ''criteria'',
      Lit (''. Here is an example template for whether the text meets a criteria:\<newline>\<newline>''
           @ ''CRITERIA: the text is '' @ [CHR 0x27]),
      Fld ''criteria'',
      Lit ([CHR 0x27] @ ''\<newline>''
           @ ''TEXT: *the provided text to evaluate*\<newline>''
           @ ''EXPLANATION: *a step by step explanation of your reasoning for whether the text meets ''
           @ ''the criteria*\<newline>''
           @ ''LABEL: *true or false*\<newline>\<newline>''
           @ ''Follow this template for the following example:\<newline>\<newline>''
           @ ''CRITERIA: the text is '' @ [CHR 0x27]),
      Fld ''criteria'',
      Lit ([CHR 0x27] @ ''\<newline>''
           @ ''TEXT: ''),
      Fld ''text'',
      Lit (''\<newline>''
           @ ''EXPLANATION: '')]"

definition description_chunks :: "chunk list" where
  "description_chunks =
     [Lit (''In this context, '' @ [CHR 0x27]),
      Fld ''criteria'',
      Lit ([CHR 0x27] @ '' means the text '' @ [CHR 0x27]),
      Fld ''description'',
      Lit ([CHR 0x27] @ ''. '')]"

definition relevance_chunks :: "chunk list" where
  "relevance_chunks =
     [Lit (''Determine if the following response is relevant to the query. In this context, ''
           @ [CHR 0x27] @ ''relevance' means that the response directly addresses the core question or topic of the ''
           @ ''query. First, explain step-by-step why you think the text is or is not relevant. ''
           @ ''Then provide a single word label; 'true' if the text is relevant or 'false' if the text ''
           @ ''is not relevant. ''
           @ ''Here is an example template for your reponse:\<newline>\<newline>''
           @ ''CRITERIA: the response is 'relevant' to the query\<newline>''
           @ ''QUERY: *text that contains a query*\<newline>''
           @ ''RESPONSE: *a response that may or may not be relevant to the query*\<newline>''
           @ ''EXPLANATION: *a step by step explanation of your reasoning for whether or not the ''
           @ ''response is relevant to the query*\<newline>''
           @ ''LABEL: *true or false*\<newline>\<newline>''
           @ ''Follow this template for the following example:\<newline>\<newline>''
           @ ''CRITERIA: the response is 'relevant' to the query\<newline>''
           @ ''QUERY: ''),
      Fld ''reference'',
      Lit (''\<newline>''
           @ ''RESPONSE: ''),
      Fld ''submission'',
      Lit (''\<newline>''
           @ ''EXPLANATION: '')]"

lemma markup_literal:
  "brace_free x \<Longrightarrow>
     markup Text (x @ rest) = (case markup Text rest of (ps, e) \<Rightarrow> (map Literal x @ ps, e))"
  by (induction x) (auto simp: brace_free_def split: prod.splits)

lemma markup_name:
  "plain n \<Longrightarrow> markup (Name acc) (n @ CHR ''}'' # rest) = cons_piece (Replacement (acc @ n)) (markup Text rest)"
  by (induction n arbitrary: acc) (auto simp: plain_def)

lemma markup_field:
  assumes "plain n"
  shows "markup Text (braces n @ rest) = cons_piece (Replacement n) (markup Text rest)"
proof -
  obtain d ds where d: "n @ CHR ''}'' # rest = d # ds" "d \<noteq> CHR ''{''"
    using assms by (cases n) (auto simp: plain_def)
  have "markup Text (braces n @ rest) = markup (Name []) (n @ CHR ''}'' # rest)"
    using d by (simp add: braces_def)
  then show ?thesis using markup_name[OF assms, of "[]" rest] by simp
qed

lemma markup_flat:
  "list_all chunk_ok cs \<Longrightarrow> markup Text (flat cs) = (concat (map chunk_pieces cs), None)"
proof (induction cs)
  case Nil
  then show ?case by simp
next
  case (Cons c cs)
  then show ?case by (cases c) (simp_all add: markup_literal markup_field)
qed

lemma render_literals:
  "render kwargs (map Literal s @ ps) =
     (case render kwargs ps of Inl e \<Rightarrow> Inl e | Inr r \<Rightarrow> Inr (s @ r))"
  by (induction s) (auto split: sum.splits)

lemma render_chunks: "render kwargs (concat (map chunk_pieces cs)) = fill kwargs cs"
proof (induction cs)
  case Nil
  then show ?case by simp
next
  case (Cons c cs)
  then show ?case by (cases c) (simp_all add: render_literals split: sum.splits)
qed

lemma py_format_flat: "list_all chunk_ok cs \<Longrightarrow> py_format (flat cs) kwargs = fill kwargs cs"
  by (simp add: py_format_def markup_flat render_chunks split: sum.splits)

lemma base_template_chunks: "base_template = flat base_chunks"
  by (simp add: base_template_def base_chunks_def braces_def)

lemma description_template_chunks: "description_template = flat description_chunks"
  by (simp add: description_template_def description_chunks_def braces_def)

lemma relevance_template_chunks: "relevance_template = flat relevance_chunks"
  by (simp add: relevance_template_def relevance_chunks_def braces_def)

lemma base_chunks_ok: "list_all chunk_ok base_chunks"
  by (simp add: base_chunks_def brace_free_def plain_def)

lemma description_chunks_ok: "list_all chunk_ok description_chunks"
  by (simp add: description_chunks_def brace_free_def plain_def)

lemma relevance_chunks_ok: "list_all chunk_ok relevance_chunks"
  by (simp add: relevance_chunks_def brace_free_def plain_def)

section \<open>Filling and expanding chunk lists\<close>

fun fields :: "chunk list \<Rightarrow> string list" where
  "fields [] = []"
| "fields (Lit s # cs) = fields cs"
| "fields (Fld n # cs) = n # fields cs"

fun subst :: "(string \<Rightarrow> string) \<Rightarrow> chunk list \<Rightarrow> string" where
  "subst \<sigma> [] = []"
| "subst \<sigma> (Lit s # cs) = s @ subst \<sigma> cs"
| "subst \<sigma> (Fld n # cs) = \<sigma> n @ subst \<sigma> cs"

fun expand :: "(string \<Rightarrow> chunk list) \<Rightarrow> chunk list \<Rightarrow> chunk list" where
  "expand \<tau> [] = []"
| "expand \<tau> (Lit s # cs) = Lit s # expand \<tau> cs"
| "expand \<tau> (Fld n # cs) = \<tau> n @ expand \<tau> cs"

lemma fill_subst:
  "(\<And>n. n \<in> set (fields cs) \<Longrightarrow> get_field kwargs n = Inr (\<sigma> n)) \<Longrightarrow>
     fill kwargs cs = Inr (subst \<sigma> cs)"
proof (induction cs)
  case Nil
  then show ?case by simp
next
  case (Cons c cs)
  then show ?case by (cases c) simp_all
qed

lemma flat_append: "flat (xs @ ys) = flat xs @ flat ys"
proof (induction xs)
  case Nil
  then show ?case by simp
next
  case (Cons c cs)
  then show ?case by (cases c) simp_all
qed

lemma flat_expand: "flat (expand \<tau> cs) = subst (\<lambda>n. flat (\<tau> n)) cs"
proof (induction cs)
  case Nil
  then show ?case by simp
next
  case (Cons c cs)
  then show ?case by (cases c) (simp_all add: flat_append)
qed

lemma expand_ok:
  "list_all chunk_ok cs \<Longrightarrow> (\<And>n. n \<in> set (fields cs) \<Longrightarrow> list_all chunk_ok (\<tau> n)) \<Longrightarrow>
     list_all chunk_ok (expand \<tau> cs)"
proof (induction cs)
  case Nil
  then show ?case by simp
next
  case (Cons c cs)
  then show ?case by (cases c) simp_all
qed

lemma fields_append: "fields (xs @ ys) = fields xs @ fields ys"
proof (induction xs)
  case Nil
  then show ?case by simp
next
  case (Cons c cs)
  then show ?case by (cases c) simp_all
qed

lemma fields_expand:
  "fields (expand \<tau> cs) = concat (map (\<lambda>n. fields (\<tau> n)) (fields cs))"
proof (induction cs)
  case Nil
  then show ?case by simp
next
  case (Cons c cs)
  then show ?case by (cases c) (simp_all add: fields_append)
qed

lemma filter_chunk_pieces:
  "filter (\<lambda>p. \<not> is_literal p) (concat (map chunk_pieces cs)) = map Replacement (fields cs)"
proof (induction cs)
  case Nil
  then show ?case by simp
next
  case (Cons c cs)
  then show ?case by (cases c) (simp_all add: filter_map comp_def)
qed

lemma placeholders_flat:
  "list_all chunk_ok cs \<Longrightarrow> placeholders (flat cs) = Inr (map Replacement (fields cs))"
  by (simp add: placeholders_def markup_flat filter_chunk_pieces)

lemma subst_sublist: "n \<in> set (fields cs) \<Longrightarrow> sublist (\<sigma> n) (subst \<sigma> cs)"
proof (induction cs)
  case Nil
  then show ?case by simp
next
  case (Cons c cs)
  show ?case
  proof (cases c)
    case (Lit s)
    with Cons have "sublist (\<sigma> n) (subst \<sigma> cs)" by simp
    then show ?thesis using Lit by (simp add: sublist_append)
  next
    case (Fld m)
    show ?thesis
    proof (cases "m = n")
      case True
      then show ?thesis using Fld by (simp add: sublist_append)
    next
      case False
      with Cons Fld have "sublist (\<sigma> n) (subst \<sigma> cs)" by simp
      then show ?thesis using Fld by (simp add: sublist_append)
    qed
  qed
qed

text \<open>The values bound to the fields of the two format strings of the template builder.\<close>

definition description_values :: "string \<Rightarrow> string \<Rightarrow> string \<Rightarrow> string" where
  "description_values c d n = (if n = ''criteria'' then c else d)"

definition base_values :: "string \<Rightarrow> string \<Rightarrow> string \<Rightarrow> string" where
  "base_values c fd n =
     (if n = ''criteria'' then c else if n = ''description'' then fd else ''{text}'')"

lemma fields_description_chunks: "fields description_chunks = [''criteria'', ''description'']"
  by (simp add: description_chunks_def)

lemma fields_base_chunks:
  "fields base_chunks =
     [''criteria'', ''description'', ''criteria'', ''criteria'', ''criteria'', ''criteria'',
      ''criteria'', ''text'']"
  by (simp add: base_chunks_def)

lemma fields_relevance_chunks: "fields relevance_chunks = [''reference'', ''submission'']"
  by (simp add: relevance_chunks_def)

lemma format_description:
  "py_format description_template [''criteria'' \<mapsto> c, ''description'' \<mapsto> d]
     = Inr (subst (description_values c d) description_chunks)"
proof -
  have "fill [''criteria'' \<mapsto> c, ''description'' \<mapsto> d] description_chunks
          = Inr (subst (description_values c d) description_chunks)"
    by (rule fill_subst)
       (auto simp: fields_description_chunks description_values_def get_field_def is_decimal_def)
  then show ?thesis
    by (simp add: description_template_chunks py_format_flat description_chunks_ok)
qed

lemma format_base:
  "py_format base_template
       [''criteria'' \<mapsto> c, ''description'' \<mapsto> fd, ''text'' \<mapsto> ''{text}'']
     = Inr (subst (base_values c fd) base_chunks)"
proof -
  have "fill [''criteria'' \<mapsto> c, ''description'' \<mapsto> fd, ''text'' \<mapsto> ''{text}''] base_chunks
          = Inr (subst (base_values c fd) base_chunks)"
    by (rule fill_subst)
       (auto simp: fields_base_chunks base_values_def get_field_def is_decimal_def)
  then show ?thesis
    by (simp add: base_template_chunks py_format_flat base_chunks_ok)
qed

lemma format_base_template_eq:
  "format_base_template c d =
     Inr (subst (base_values c (subst (description_values c (format_value d)) description_chunks))
            base_chunks)"
  by (simp add: format_base_template_def format_description format_base)

lemma format_relevance:
  "py_format relevance_template [''query'' \<mapsto> q, ''response'' \<mapsto> r] = Inl (KeyError ''reference'')"
proof -
  have "fill [''query'' \<mapsto> q, ''response'' \<mapsto> r] relevance_chunks = Inl (KeyError ''reference'')"
    by (simp add: relevance_chunks_def get_field_def is_decimal_def)
  then show ?thesis
    by (simp add: relevance_template_chunks py_format_flat relevance_chunks_ok)
qed

text \<open>
  The built template as a chunk list, when the criteria and the description are themselves
  given as chunk lists: the criteria and the description take the place of their fields,
  and the field \<open>text\<close> stays.
\<close>

definition description_parts :: "chunk list \<Rightarrow> chunk list \<Rightarrow> string \<Rightarrow> chunk list" where
  "description_parts cc dc n = (if n = ''criteria'' then cc else dc)"

definition base_parts :: "chunk list \<Rightarrow> chunk list \<Rightarrow> string \<Rightarrow> chunk list" where
  "base_parts cc fdc n =
     (if n = ''criteria'' then cc else if n = ''description'' then fdc else [Fld ''text''])"

definition built_chunks :: "chunk list \<Rightarrow> chunk list \<Rightarrow> chunk list" where
  "built_chunks cc dc =
     expand (base_parts cc (expand (description_parts cc dc) description_chunks)) base_chunks"

lemma format_base_template_chunks:
  "format_base_template (flat cc) (Some (flat dc)) = Inr (flat (built_chunks cc dc))"
proof -
  have d: "(\<lambda>n. flat (description_parts cc dc n)) = description_values (flat cc) (flat dc)"
    by (auto simp: description_parts_def description_values_def)
  have b: "(\<lambda>n. flat (base_parts cc fdc n)) = base_values (flat cc) (flat fdc)" for fdc
    by (auto simp: base_parts_def base_values_def braces_def)
  show ?thesis
    by (simp add: format_base_template_eq built_chunks_def flat_expand d b)
qed

lemma built_chunks_ok:
  assumes "list_all chunk_ok cc" "list_all chunk_ok dc"
  shows "list_all chunk_ok (built_chunks cc dc)"
proof -
  have "list_all chunk_ok (expand (description_parts cc dc) description_chunks)"
    using assms by (intro expand_ok description_chunks_ok) (simp add: description_parts_def)
  then show ?thesis
    unfolding built_chunks_def using assms(1)
    by (intro expand_ok base_chunks_ok) (simp add: base_parts_def plain_def)
qed

lemma fields_built_chunks:
  "fields (built_chunks cc dc) =
     fields cc @ (fields cc @ fields dc) @ fields cc @ fields cc @ fields cc @ fields cc
       @ fields cc @ [''text'']"
  by (simp add: built_chunks_def fields_expand fields_base_chunks fields_description_chunks
        base_parts_def description_parts_def)

lemma built_placeholders_chunks:
  assumes "list_all chunk_ok cc" "list_all chunk_ok dc"
  shows "built_placeholders (flat cc) (Some (flat dc))
           = Inr (map Replacement (fields (built_chunks cc dc)))"
  using built_chunks_ok[OF assms]
  by (simp add: built_placeholders_def format_base_template_chunks placeholders_flat)

lemma built_prefix:
  "\<exists>r. format_base_template c d = Inr (''Determine if the following text is '' @ c @ r)"
  by (simp add: format_base_template_eq base_chunks_def base_values_def)

lemma built_contains_criteria:
  "\<exists>t. format_base_template c d = Inr t \<and> sublist c t"
proof -
  have "sublist (base_values c fd ''criteria'') (subst (base_values c fd) base_chunks)" for fd
    by (rule subst_sublist) (simp add: fields_base_chunks)
  then show ?thesis by (simp add: format_base_template_eq base_values_def)
qed

section \<open>Stand-ins for running the evaluators\<close>

text \<open>
  Concrete collaborators for the examples below: payloads are strings that are their own
  text, \<open>snap_to_rail\<close> accepts a label that is a rail up to case, and the model answers
  every prompt with one fixed response.
\<close>

definition plain_externals :: "string externals" where
  "plain_externals =
     \<lparr>unwrap_json = (\<lambda>v. v),
      snap_to_rail = (\<lambda>raw rails.
        if map ascii_lower raw \<in> set rails then map ascii_lower raw else ''NOT_PARSABLE''),
      str = (\<lambda>v. v)\<rparr>"

definition constant_model :: "string \<Rightarrow> LLMBaseModel" where
  "constant_model response =
     \<lparr>generate = (\<lambda>prompt. Inr response), async_generate = (\<lambda>prompt. Inr response)\<rparr>"

section \<open>Properties of the label extractor\<close>

text \<open>
  C4. A raw response with no match of the label delimiter is split into exactly one segment,
  and the extractor returns the whole raw response, unchanged and unstripped.
  A match of \<open>\W*label\W*\<close> exists exactly when the letters \<open>label\<close> occur in some case
  (\<open>re_search_None_iff\<close>, \<open>contains_label_iff\<close>).
\<close>

theorem no_delimiter_returns_raw_string:
  assumes "\<not> contains_label raw_string"
  shows "re_search raw_string = None \<and> re_split raw_string = [raw_string]
         \<and> parse_label_from_explanation raw_string = raw_string"
proof -
  have "re_split raw_string = [raw_string]" using assms by (rule re_split_no_label)
  then show ?thesis
    using assms by (simp add: parse_label_from_explanation_def re_search_None_iff)
qed

theorem no_delimiter_returns_raw_string_witness:
  "\<not> contains_label ''it is concise''
   \<and> re_search ''it is concise'' = None \<and> re_split ''it is concise'' = [''it is concise'']
   \<and> parse_label_from_explanation ''it is concise'' = ''it is concise''"
proof -
  have h: "\<not> contains_label ''it is concise''" by code_simp
  from no_delimiter_returns_raw_string[OF h] h show ?thesis by simp
qed

text \<open>
  C2. When the raw response has a match of the delimiter, the split ends with a delimiter
  \<open>w1 @ l @ w2\<close> (non-word characters, the letters of \<open>label\<close> in some case, non-word
  characters) followed by a last segment \<open>rest\<close> in which the delimiter does not occur
  again, and the extractor returns that last segment, stripped.
\<close>

theorem parse_label_after_last_delimiter:
  assumes "contains_label raw_string"
  shows "\<exists>ps w1 l w2 rest.
           re_split raw_string = ps @ [w1 @ l @ w2, rest]
         \<and> raw_string = concat ps @ w1 @ l @ w2 @ rest
         \<and> list_all nonword w1 \<and> ci_label l \<and> list_all nonword w2
         \<and> \<not> contains_label rest
         \<and> parse_label_from_explanation raw_string = strip rest"
proof -
  from re_split_last[OF assms] obtain ps w1 l w2 rest where
    sp: "re_split raw_string = ps @ [w1 @ l @ w2, rest]" and
    d: "list_all nonword w1" "ci_label l" "list_all nonword w2" and
    r: "\<not> contains_label rest"
    by blast
  have "concat (re_split raw_string) = raw_string" by (rule concat_re_split)
  then have c: "raw_string = concat ps @ w1 @ l @ w2 @ rest" by (simp add: sp)
  have "re_match (w1 @ l @ w2) \<noteq> None" using re_match_delim[OF d, of "[]"] by simp
  with sp have "parse_label_from_explanation raw_string = strip rest" by (rule parse_label_last)
  with sp c d r show ?thesis by blast
qed

theorem parse_label_after_last_delimiter_witness:
  "contains_label ''LABEL: true because X. Actually, label: false''
   \<and> (\<exists>ps w1 l w2 rest.
           re_split ''LABEL: true because X. Actually, label: false'' = ps @ [w1 @ l @ w2, rest]
         \<and> ''LABEL: true because X. Actually, label: false'' = concat ps @ w1 @ l @ w2 @ rest
         \<and> list_all nonword w1 \<and> ci_label l \<and> list_all nonword w2
         \<and> \<not> contains_label rest
         \<and> parse_label_from_explanation ''LABEL: true because X. Actually, label: false''
             = strip rest)
   \<and> parse_label_from_explanation ''LABEL: true because X. Actually, label: false'' = ''false''"
proof -
  have h: "contains_label ''LABEL: true because X. Actually, label: false''" by code_simp
  have v: "parse_label_from_explanation ''LABEL: true because X. Actually, label: false'' = ''false''"
    by code_simp
  from parse_label_after_last_delimiter[OF h] h v show ?thesis by blast
qed

text \<open>
  C10. The claim is that whenever the last occurrence of the letters \<open>label\<close> lies inside
  a word, the extractor returns the text after that occurrence. The split finds its
  delimiters from left to right, without overlap: an occurrence whose first letter is the
  last letter of the occurrence before it lies inside that delimiter and is not found. Here
  the last occurrence is followed by \<open>ok\<close> and the extractor returns \<open>abel ok\<close>.
\<close>

theorem embedded_label_overlap_counterexample:
  "ci_label ''label'' \<and> \<not> contains_label (tl ''label'' @ '' ok'')
   \<and> parse_label_from_explanation (''LABEL: true. labe'' @ ''label'' @ '' ok'') = ''abel ok''
   \<and> strip (dropWhile nonword '' ok'') = ''ok''"
  by code_simp

text \<open>
  C10, amended. The delimiter matches the bare letters of \<open>label\<close>, both \<open>\W*\<close> parts
  empty. When the last occurrence of the letters is not preceded by the letters \<open>labe\<close>,
  the extractor returns what follows that occurrence, without its leading non-word
  characters and stripped, wherever the occurrence stands: inside a word or not, and
  whatever \<open>LABEL:\<close> lines come before it.
\<close>

theorem embedded_label_is_delimiter:
  assumes "ci_label l" "\<not> contains_label rest" "\<not> ends_labe pre"
  shows "re_match l = Some 5
         \<and> parse_label_from_explanation (pre @ l @ rest) = strip (dropWhile nonword rest)"
proof -
  have "re_match ([] @ l @ [] @ []) = Some 5"
    by (subst re_match_delim) (simp_all add: assms(1))
  moreover from split_embedded[OF assms] obtain ps d where
    "re_split (pre @ l @ rest) = ps @ [d, dropWhile nonword rest]" "re_match d \<noteq> None"
    by blast
  then have "parse_label_from_explanation (pre @ l @ rest) = strip (dropWhile nonword rest)"
    by (rule parse_label_last)
  ultimately show ?thesis by simp
qed

theorem embedded_label_is_delimiter_witness:
  "ci_label ''label'' \<and> \<not> contains_label ''ed as such'' \<and> \<not> ends_labe ''LABEL: true. It is mis''
   \<and> re_match ''label'' = Some 5
   \<and> parse_label_from_explanation (''LABEL: true. It is mis'' @ ''label'' @ ''ed as such'')
       = strip (dropWhile nonword ''ed as such'')
   \<and> strip (dropWhile nonword ''ed as such'') = ''ed as such''"
proof -
  have h1: "ci_label ''label''" by code_simp
  have h2: "\<not> contains_label ''ed as such''" by code_simp
  have h3: "\<not> ends_labe ''LABEL: true. It is mis''" by code_simp
  have v: "strip (dropWhile nonword ''ed as such'') = ''ed as such''" by code_simp
  from embedded_label_is_delimiter[OF h1 h2 h3] h1 h2 h3 v show ?thesis by blast
qed

section \<open>Properties of the evaluators\<close>

lemma relevance_format_key_error:
  assumes "run_output exp_run \<noteq> None" "get_query self example exp_run = Inr q"
    "get_response self example exp_run = Inr r"
  shows "relevance_format_eval_template self example exp_run = Inl (KeyError ''reference'')"
  using assms by (auto simp: relevance_format_eval_template_def format_relevance)

text \<open>
  C1. The claim is that \<open>RelevanceEvaluator.evaluate\<close> renders its prompt by putting the
  result of \<open>get_query\<close> and of \<open>get_response\<close> into the template. The code passes them
  to \<open>str.format\<close> under the keywords \<open>query\<close> and \<open>response\<close>, while the fields of
  the template are \<open>reference\<close> and \<open>submission\<close>: for every example and every run with
  an output, formatting raises \<open>KeyError('reference')\<close> (\<open>relevance_format_key_error\<close>),
  no prompt is rendered and the model is not called. Here with the default extraction
  functions.
\<close>

theorem relevance_evaluate_raises_key_error:
  "(relevance_evaluate plain_externals
      (RelevanceEvaluator_init plain_externals (constant_model ''LABEL: true'') None None None)
      \<lparr>input = ''What is the capital of France?''\<rparr>
      \<lparr>run_output = Some \<lparr>result = ''Paris''\<rparr>\<rparr> []
     :: (exn + string EvaluationResult) \<times> call list)
   = (Inl (KeyError ''reference''), [])"
proof -
  let ?self = "RelevanceEvaluator_init plain_externals (constant_model ''LABEL: true'') None None None"
  let ?example = "\<lparr>input = ''What is the capital of France?''\<rparr>"
  let ?run = "\<lparr>run_output = Some \<lparr>result = ''Paris''\<rparr>\<rparr>"
  have "relevance_format_eval_template ?self ?example ?run = Inl (KeyError ''reference'')"
    by (rule relevance_format_key_error)
       (simp_all add: RelevanceEvaluator_init_def default_get_query_def default_get_response_def)
  then show ?thesis by (simp add: relevance_evaluate_def)
qed

text \<open>
  C3. When the label snapped from the raw response is neither \<open>true\<close> nor \<open>false\<close>,
  \<open>_parse_eval_output\<close> of both evaluators raises a \<open>RuntimeError\<close> whose message ends
  with the whole raw response, and returns no result. This holds whatever \<open>snap_to_rail\<close>
  computes.
\<close>

theorem unparseable_label_raises:
  assumes "snap_to_rail ext (parse_label_from_explanation unparsed_response) [''true'', ''false'']
             \<notin> {''true'', ''false''}"
  shows "parse_eval_output ext unparsed_response
           = Inl (RuntimeError (''Could not parse LLM evaluation: '' @ unparsed_response))
       \<and> relevance_parse_eval_output ext unparsed_response
           = Inl (RuntimeError (''Could not parse LLM evaluation: '' @ unparsed_response))"
  using assms by (simp add: parse_eval_output_def relevance_parse_eval_output_def Let_def)

theorem unparseable_label_raises_witness:
  "snap_to_rail plain_externals (parse_label_from_explanation ''it is concise'') [''true'', ''false'']
     \<notin> {''true'', ''false''}
   \<and> (parse_eval_output plain_externals ''it is concise'' :: exn + string EvaluationResult)
       = Inl (RuntimeError ''Could not parse LLM evaluation: it is concise'')
   \<and> (relevance_parse_eval_output plain_externals ''it is concise'' :: exn + string EvaluationResult)
       = Inl (RuntimeError ''Could not parse LLM evaluation: it is concise'')"
proof -
  have p: "parse_label_from_explanation ''it is concise'' = ''it is concise''" by code_simp
  have h: "snap_to_rail plain_externals (parse_label_from_explanation ''it is concise'')
             [''true'', ''false''] \<notin> {''true'', ''false''}"
    unfolding p by (simp add: plain_externals_def)
  from unparseable_label_raises[OF h] h show ?thesis by simp
qed

text \<open>
  C6. When the label snapped from the raw response is \<open>true\<close> the result has score 1.0, when
  it is \<open>false\<close> score 0.0; in both cases the explanation is the whole raw response and
  the metadata is the empty mapping, for both evaluators.
\<close>

theorem parsed_label_result:
  "(snap_to_rail ext (parse_label_from_explanation unparsed_response) [''true'', ''false''] = ''true''
      \<longrightarrow> parse_eval_output ext unparsed_response
            = Inr \<lparr>score = 1, explanation = unparsed_response, metadata = Map.empty\<rparr>
        \<and> relevance_parse_eval_output ext unparsed_response
            = Inr \<lparr>score = 1, explanation = unparsed_response, metadata = Map.empty\<rparr>)
   \<and> (snap_to_rail ext (parse_label_from_explanation unparsed_response) [''true'', ''false''] = ''false''
      \<longrightarrow> parse_eval_output ext unparsed_response
            = Inr \<lparr>score = 0, explanation = unparsed_response, metadata = Map.empty\<rparr>
        \<and> relevance_parse_eval_output ext unparsed_response
            = Inr \<lparr>score = 0, explanation = unparsed_response, metadata = Map.empty\<rparr>)"
  by (simp add: parse_eval_output_def relevance_parse_eval_output_def Let_def)

theorem parsed_label_result_witness:
  "snap_to_rail plain_externals
       (parse_label_from_explanation ''It is short. LABEL: True'') [''true'', ''false''] = ''true''
   \<and> (parse_eval_output plain_externals ''It is short. LABEL: True'' :: exn + string EvaluationResult)
       = Inr \<lparr>score = 1, explanation = ''It is short. LABEL: True'', metadata = Map.empty\<rparr>
   \<and> snap_to_rail plain_externals
       (parse_label_from_explanation ''It rambles. LABEL: false'') [''true'', ''false''] = ''false''
   \<and> (relevance_parse_eval_output plain_externals ''It rambles. LABEL: false''
         :: exn + string EvaluationResult)
       = Inr \<lparr>score = 0, explanation = ''It rambles. LABEL: false'', metadata = Map.empty\<rparr>"
proof -
  have h1: "snap_to_rail plain_externals
       (parse_label_from_explanation ''It is short. LABEL: True'') [''true'', ''false''] = ''true''"
    by code_simp
  have h2: "snap_to_rail plain_externals
       (parse_label_from_explanation ''It rambles. LABEL: false'') [''true'', ''false''] = ''false''"
    by code_simp
  from parsed_label_result[of plain_externals "''It is short. LABEL: True''"]
       parsed_label_result[of plain_externals "''It rambles. LABEL: false''"] h1 h2
  show ?thesis by blast
qed

text \<open>
  C5. With a run whose output is \<open>None\<close>, \<open>evaluate\<close> and \<open>async_evaluate\<close> of both
  evaluators fail with the assertion error of \<open>_format_eval_template\<close>, and the log of
  calls to the model is the one they were given: no generation entry point is invoked.
\<close>

theorem missing_output_fails_before_generation:
  assumes "run_output exp_run = None"
  shows "evaluate ext self example exp_run calls = (Inl AssertionError, calls)
       \<and> async_evaluate ext self example exp_run calls = (Inl AssertionError, calls)
       \<and> relevance_evaluate ext rself example exp_run calls = (Inl AssertionError, calls)
       \<and> relevance_async_evaluate ext rself example exp_run calls = (Inl AssertionError, calls)"
  using assms
  by (simp add: evaluate_def async_evaluate_def relevance_evaluate_def relevance_async_evaluate_def
        format_eval_template_def relevance_format_eval_template_def)

theorem missing_output_fails_before_generation_witness:
  "run_output (\<lparr>run_output = None\<rparr> :: string ExperimentRun) = None
   \<and> (evaluate plain_externals
        \<lparr>model = constant_model ''LABEL: true'', criteria = ''concise'', description = ''is short'',
         template = ''TEXT: {text}'', name = ''Conciseness''\<rparr>
        \<lparr>input = ''q''\<rparr> \<lparr>run_output = None\<rparr> []
       :: (exn + string EvaluationResult) \<times> call list) = (Inl AssertionError, [])
   \<and> (relevance_async_evaluate plain_externals
        (RelevanceEvaluator_init plain_externals (constant_model ''LABEL: true'') None None None)
        \<lparr>input = ''q''\<rparr> \<lparr>run_output = None\<rparr> []
       :: (exn + string EvaluationResult) \<times> call list) = (Inl AssertionError, [])"
proof -
  have h: "run_output (\<lparr>run_output = None\<rparr> :: string ExperimentRun) = None" by simp
  from missing_output_fails_before_generation[OF h] h show ?thesis by blast
qed

text \<open>
  C9. If the two generation entry points of the model return the same for every prompt,
  \<open>async_evaluate\<close> returns the same result or raises the same exception as \<open>evaluate\<close>,
  after sending the same prompts, for both evaluators.
\<close>

theorem async_evaluate_same_contract:
  assumes "\<And>prompt. async_generate (model self) prompt = generate (model self) prompt"
    and "\<And>prompt. async_generate (relevance_model rself) prompt
                   = generate (relevance_model rself) prompt"
  shows "fst (async_evaluate ext self example exp_run calls)
           = fst (evaluate ext self example exp_run calls)
       \<and> map prompt_of (snd (async_evaluate ext self example exp_run calls))
           = map prompt_of (snd (evaluate ext self example exp_run calls))
       \<and> fst (relevance_async_evaluate ext rself example exp_run calls)
           = fst (relevance_evaluate ext rself example exp_run calls)
       \<and> map prompt_of (snd (relevance_async_evaluate ext rself example exp_run calls))
           = map prompt_of (snd (relevance_evaluate ext rself example exp_run calls))"
  using assms
  by (simp add: evaluate_def async_evaluate_def relevance_evaluate_def relevance_async_evaluate_def
        split: sum.splits)

theorem async_evaluate_same_contract_witness:
  "(\<forall>prompt. async_generate (constant_model ''It is short. LABEL: true'') prompt
              = generate (constant_model ''It is short. LABEL: true'') prompt)
   \<and> (fst (async_evaluate plain_externals
          \<lparr>model = constant_model ''It is short. LABEL: true'', criteria = ''concise'',
           description = ''is short'', template = ''TEXT: {text}'', name = ''Conciseness''\<rparr>
          \<lparr>input = ''q''\<rparr> \<lparr>run_output = Some \<lparr>result = ''a''\<rparr>\<rparr> [])
        :: exn + string EvaluationResult)
     = fst (evaluate plain_externals
          \<lparr>model = constant_model ''It is short. LABEL: true'', criteria = ''concise'',
           description = ''is short'', template = ''TEXT: {text}'', name = ''Conciseness''\<rparr>
          \<lparr>input = ''q''\<rparr> \<lparr>run_output = Some \<lparr>result = ''a''\<rparr>\<rparr> [])"
proof -
  let ?m = "constant_model ''It is short. LABEL: true''"
  let ?self = "\<lparr>model = ?m, criteria = ''concise'',
           description = ''is short'', template = ''TEXT: {text}'', name = ''Conciseness''\<rparr>"
  let ?rself = "RelevanceEvaluator_init plain_externals ?m None None None"
  have h1: "\<And>prompt. async_generate (model ?self) prompt = generate (model ?self) prompt"
    by (simp add: constant_model_def)
  have h2: "\<And>prompt. async_generate (relevance_model ?rself) prompt
                       = generate (relevance_model ?rself) prompt"
    by (simp add: constant_model_def RelevanceEvaluator_init_def)
  have "(fst (async_evaluate plain_externals ?self \<lparr>input = ''q''\<rparr>
                \<lparr>run_output = Some \<lparr>result = ''a''\<rparr>\<rparr> []) :: exn + string EvaluationResult)
          = fst (evaluate plain_externals ?self \<lparr>input = ''q''\<rparr>
                \<lparr>run_output = Some \<lparr>result = ''a''\<rparr>\<rparr> [])"
    by (rule async_evaluate_same_contract[OF h1 h2, THEN conjunct1])
  with h1 show ?thesis by simp
qed

text \<open>
  C7. The claim is that the built template has exactly one open placeholder, \<open>text\<close>, for
  every criteria and description. \<open>str.format\<close> copies the values of its arguments as they
  are, braces included, so a description that itself holds a replacement field leaves that
  field in the built template, before \<open>text\<close>.
\<close>

theorem built_template_extra_placeholder_counterexample:
  "built_placeholders ''templated'' (Some ''uses the {name} placeholder'')
     = Inr [Replacement ''name'', Replacement ''text'']"
proof -
  let ?cc = "[Lit ''templated'']"
  let ?dc = "[Lit ''uses the '', Fld ''name'', Lit '' placeholder'']"
  have ok: "list_all chunk_ok ?cc" "list_all chunk_ok ?dc"
    by (simp_all add: brace_free_def plain_def)
  from built_placeholders_chunks[OF ok] show ?thesis
    by (simp add: fields_built_chunks braces_def)
qed

text \<open>
  C7, amended. For every criteria and description without the characters \<open>{\<close> and \<open>}\<close>,
  the template is built and \<open>text\<close> is its one replacement field. The build is a function
  of the criteria and the description alone (\<open>format_base_template_eq\<close>), so two builds
  from the same inputs are the same string.
\<close>

theorem built_template_single_placeholder:
  assumes "brace_free crit" "brace_free descr"
  shows "built_placeholders crit (Some descr) = Inr [Replacement ''text'']"
proof -
  have ok: "list_all chunk_ok [Lit crit]" "list_all chunk_ok [Lit descr]"
    using assms by simp_all
  from built_placeholders_chunks[OF ok] show ?thesis by (simp add: fields_built_chunks)
qed

theorem built_template_single_placeholder_witness:
  "brace_free ''concise'' \<and> brace_free ''is just a few sentences and easy to follow''
   \<and> built_placeholders ''concise'' (Some ''is just a few sentences and easy to follow'')
       = Inr [Replacement ''text'']"
proof -
  have h1: "brace_free ''concise''" by (simp add: brace_free_def)
  have h2: "brace_free ''is just a few sentences and easy to follow''" by (simp add: brace_free_def)
  from built_template_single_placeholder[OF h1 h2] h1 h2 show ?thesis by blast
qed

lemma factory_class:
  "\<exists>cls r. criteria_evaluator_factory cn c d dn = Inr cls
      \<and> class_name cls = cn
      \<and> (\<forall>m. \<exists>ev. init cls m None = Inr ev \<and> model ev = m \<and> name ev = dn
                \<and> template ev = class_template cls)
      \<and> class_template cls = ''Determine if the following text is '' @ c @ r
      \<and> sublist c (class_template cls)"
proof -
  obtain r where r: "format_base_template c (Some d) = Inr (''Determine if the following text is '' @ c @ r)"
    using built_prefix by blast
  obtain t where t: "format_base_template c (Some d) = Inr t" "sublist c t"
    using built_contains_criteria by blast
  from r t show ?thesis
    by (simp add: criteria_evaluator_factory_def LLMCriteriaEvaluator_init_def)
qed

text \<open>
  C8. The three built-in classes exist, each is instantiated from a model alone with its
  default name and the template of its class, each template contains the criterion word of
  its class, and the three templates differ from one another.
\<close>

theorem builtin_evaluators:
  "\<exists>conciseness helpfulness coherence.
      ConcisenessEvaluator = Inr conciseness
    \<and> HelpfulnessEvaluator = Inr helpfulness
    \<and> CoherenceEvaluator = Inr coherence
    \<and> (\<forall>m. \<exists>ev. init conciseness m None = Inr ev \<and> model ev = m \<and> name ev = ''Conciseness''
              \<and> template ev = class_template conciseness)
    \<and> (\<forall>m. \<exists>ev. init helpfulness m None = Inr ev \<and> model ev = m \<and> name ev = ''Helpfulness''
              \<and> template ev = class_template helpfulness)
    \<and> (\<forall>m. \<exists>ev. init coherence m None = Inr ev \<and> model ev = m \<and> name ev = ''Coherence''
              \<and> template ev = class_template coherence)
    \<and> sublist ''concise'' (class_template conciseness)
    \<and> sublist ''helpful'' (class_template helpfulness)
    \<and> sublist ''coherent'' (class_template coherence)
    \<and> distinct [class_template conciseness, class_template helpfulness,
                 class_template coherence]"
proof -
  from factory_class[of "''ConcisenessEvaluator''" "''concise''"
      "''is just a few sentences and easy to follow''" "''Conciseness''"]
  obtain cls1 r1 where 1: "ConcisenessEvaluator = Inr cls1"
    "\<forall>m. \<exists>ev. init cls1 m None = Inr ev \<and> model ev = m \<and> name ev = ''Conciseness''
              \<and> template ev = class_template cls1"
    "sublist ''concise'' (class_template cls1)"
    and t1: "class_template cls1 = ''Determine if the following text is '' @ ''concise'' @ r1"
    unfolding ConcisenessEvaluator_def by blast
  from factory_class[of "''HelpfulnessEvaluator''" "''helpful''"
      "''provides useful information''" "''Helpfulness''"]
  obtain cls2 r2 where 2: "HelpfulnessEvaluator = Inr cls2"
    "\<forall>m. \<exists>ev. init cls2 m None = Inr ev \<and> model ev = m \<and> name ev = ''Helpfulness''
              \<and> template ev = class_template cls2"
    "sublist ''helpful'' (class_template cls2)"
    and t2: "class_template cls2 = ''Determine if the following text is '' @ ''helpful'' @ r2"
    unfolding HelpfulnessEvaluator_def by blast
  from factory_class[of "''CoherenceEvaluator''" "''coherent''"
      "''is coherent, well-structured, and logically sound''" "''Coherence''"]
  obtain cls3 r3 where 3: "CoherenceEvaluator = Inr cls3"
    "\<forall>m. \<exists>ev. init cls3 m None = Inr ev \<and> model ev = m \<and> name ev = ''Coherence''
              \<and> template ev = class_template cls3"
    "sublist ''coherent'' (class_template cls3)"
    and t3: "class_template cls3 = ''Determine if the following text is '' @ ''coherent'' @ r3"
    unfolding CoherenceEvaluator_def by blast
  have "distinct [class_template cls1, class_template cls2, class_template cls3]"
    by (simp add: t1 t2 t3)
  with 1 2 3 show ?thesis by blast
qed

end
